theory Spec2Isabelle
  imports Main "HOL-Library.Word"
begin

section \<open>JavaScript strings\<close>

text \<open>
  A JavaScript string is a sequence of 16-bit UTF-16 code units; \<open>length\<close>, the regular
  expression without the \<open>u\<close> flag, \<open>trim\<close> and \<open>includes\<close> all work on code units.
  ASCII literals of the source are written through \<open>ascii\<close>; the Chinese literals are
  given by their code units.
\<close>

type_synonym jschar = "16 word"
type_synonym jsstring = "jschar list"

definition ascii :: "string \<Rightarrow> jsstring" where
  "ascii s = map of_char s"

text \<open>\<open>s.startsWith(p)\<close>, used to read \<open>includes\<close> and the regular expression.\<close>

fun starts_with :: "'a list \<Rightarrow> 'a list \<Rightarrow> bool" where
  "starts_with s [] = True"
| "starts_with [] (p # ps) = False"
| "starts_with (c # cs) (p # ps) = (c = p \<and> starts_with cs ps)"

text \<open>\<open>s.includes(k)\<close>: \<open>k\<close> occurs in \<open>s\<close> as a contiguous substring.\<close>

fun includes_js :: "'a list \<Rightarrow> 'a list \<Rightarrow> bool" where
  "includes_js [] k = starts_with [] k"
| "includes_js (c # cs) k = (starts_with (c # cs) k \<or> includes_js cs k)"

text \<open>
  \<open>String.prototype.trim\<close> strips the code units of ECMAScript's WhiteSpace and
  LineTerminator productions from both ends.
\<close>

definition is_js_whitespace :: "jschar \<Rightarrow> bool" where
  "is_js_whitespace c =
     (c = 0x0009 \<or> c = 0x000A \<or> c = 0x000B \<or> c = 0x000C \<or> c = 0x000D \<or> c = 0x0020 \<or>
      c = 0x00A0 \<or> c = 0x1680 \<or> (0x2000 \<le> c \<and> c \<le> 0x200A) \<or> c = 0x2028 \<or>
      c = 0x2029 \<or> c = 0x202F \<or> c = 0x205F \<or> c = 0x3000 \<or> c = 0xFEFF)"

definition trim :: "jsstring \<Rightarrow> jsstring" where
  "trim s = rev (dropWhile is_js_whitespace (rev (dropWhile is_js_whitespace s)))"

section \<open>Placeholder scan (docService.ts, lines 7-83)\<close>

text \<open>\<open>TABLE_KEYWORD = "\<dots>"\<close>: the six code units U+5546 U+54C1 U+4FE1 U+606F U+8868 U+683C.\<close>

definition TABLE_KEYWORD :: jsstring where
  "TABLE_KEYWORD = [0x5546, 0x54C1, 0x4FE1, 0x606F, 0x8868, 0x683C]"

definition OPEN_DELIM :: jsstring where
  "OPEN_DELIM = ascii ''{-''"

definition CLOSE_DELIM :: jsstring where
  "CLOSE_DELIM = ascii ''-}''"

text \<open>
  \<open>PLACEHOLDER_REGEX = /\{-([\s\S]+?)-\}/g\<close>. A match object carries \<open>match[0]\<close>, the
  whole tag, and \<open>match[1]\<close>, the captured interior.
\<close>

record regex_match =
  whole :: jsstring
  group1 :: jsstring

text \<open>
  The lazy part of the pattern after its first, mandatory character: the shortest
  extension after which \<open>-}\<close> follows. The result is the rest of the capture and the text
  after the closing delimiter; \<open>None\<close> when no closing delimiter follows.
\<close>

fun lazy_body :: "jsstring \<Rightarrow> (jsstring \<times> jsstring) option" where
  "lazy_body [] = None"
| "lazy_body (c # cs) =
     (if starts_with (c # cs) CLOSE_DELIM then Some ([], drop (length CLOSE_DELIM) (c # cs))
      else (case lazy_body cs of
              None \<Rightarrow> None
            | Some (b, r) \<Rightarrow> Some (c # b, r)))"

text \<open>An attempt to match the pattern at the very start of the text.\<close>

definition match_at :: "jsstring \<Rightarrow> (jsstring \<times> jsstring) option" where
  "match_at s =
     (if starts_with s OPEN_DELIM then
        (case drop (length OPEN_DELIM) s of
           [] \<Rightarrow> None
         | c # cs \<Rightarrow> (case lazy_body cs of
                        None \<Rightarrow> None
                      | Some (b, r) \<Rightarrow> Some (c # b, r)))
      else None)"

lemma lazy_body_length:
  "lazy_body s = Some (b, r) \<Longrightarrow> length b + length CLOSE_DELIM + length r = length s"
proof (induction s arbitrary: b r)
  case Nil
  then show ?case by simp
next
  case (Cons c cs)
  show ?case
  proof (cases "starts_with (c # cs) CLOSE_DELIM")
    case True
    have "length CLOSE_DELIM \<le> length (c # cs)"
      using True by (cases cs) (auto simp: CLOSE_DELIM_def ascii_def)
    with True Cons.prems show ?thesis by auto
  next
    case False
    with Cons.prems obtain b' where b': "lazy_body cs = Some (b', r)" "b = c # b'"
      by (auto split: option.splits)
    from Cons.IH [OF b'(1)] b'(2) show ?thesis by simp
  qed
qed

lemma match_at_length:
  assumes "match_at s = Some (g, r)"
  shows "length r < length s"
proof -
  from assms obtain c cs b where s: "drop (length OPEN_DELIM) s = c # cs"
    and b: "lazy_body cs = Some (b, r)"
    by (auto simp: match_at_def split: if_splits list.splits option.splits)
  have "length cs < length s"
    using arg_cong [OF s, of length] by simp
  with lazy_body_length [OF b] show ?thesis by simp
qed

text \<open>
  \<open>Array.from(text.matchAll(PLACEHOLDER_REGEX))\<close>: the matches from left to right, each
  search starting where the previous match ended (a match is never empty).
\<close>

function matchAll :: "jsstring \<Rightarrow> regex_match list" where
  "matchAll [] = []"
| "matchAll (c # cs) =
     (case match_at (c # cs) of
        Some (g, r) \<Rightarrow> \<lparr>whole = OPEN_DELIM @ g @ CLOSE_DELIM, group1 = g\<rparr> # matchAll r
      | None \<Rightarrow> matchAll cs)"
  by pat_completeness auto
termination
  by (relation "measure length") (auto dest: match_at_length)

record FieldDefinition =
  originalTag :: jsstring
  fieldName :: jsstring
  isTable :: bool

text \<open>
  The body of \<open>matches.forEach\<close>: the state is the set \<open>uniqueFields\<close> and the array
  \<open>fields\<close>.
\<close>

definition scan_step ::
  "jsstring set \<times> FieldDefinition list \<Rightarrow> regex_match \<Rightarrow> jsstring set \<times> FieldDefinition list"
where
  "scan_step st m =
     (let content = trim (group1 m) in
      if content \<notin> fst st then
        (insert content (fst st),
         snd st @ [\<lparr>originalTag = whole m, fieldName = content,
                    isTable = includes_js content TABLE_KEYWORD\<rparr>])
      else st)"

text \<open>The comparator \<open>(a, b) => (a.isTable === b.isTable ? 0 : a.isTable ? 1 : -1)\<close>.\<close>

definition compareFields :: "FieldDefinition \<Rightarrow> FieldDefinition \<Rightarrow> int" where
  "compareFields a b = (if isTable a = isTable b then 0 else if isTable a then 1 else - 1)"

text \<open>
  \<open>Array.prototype.sort\<close> with a comparator is a stable sort (ECMAScript 2019 on). For a
  consistent comparator its result is determined; insertion from the right computes it.
\<close>

fun insert_sorted :: "('a \<Rightarrow> 'a \<Rightarrow> int) \<Rightarrow> 'a \<Rightarrow> 'a list \<Rightarrow> 'a list" where
  "insert_sorted cmp x [] = [x]"
| "insert_sorted cmp x (y # ys) =
     (if cmp x y \<le> 0 then x # y # ys else y # insert_sorted cmp x ys)"

fun js_sort :: "('a \<Rightarrow> 'a \<Rightarrow> int) \<Rightarrow> 'a list \<Rightarrow> 'a list" where
  "js_sort cmp [] = []"
| "js_sort cmp (x # xs) = insert_sorted cmp x (js_sort cmp xs)"

text \<open>
  \<open>extractFieldsFromDoc\<close>, from the raw text that \<open>Mammoth.extractRawText\<close> returned
  (lines 19-39).
\<close>

definition extractFieldsFromDoc :: "jsstring \<Rightarrow> FieldDefinition list" where
  "extractFieldsFromDoc text =
     js_sort compareFields (snd (foldl scan_step ({}, []) (matchAll text)))"

text \<open>
  \<open>extractFieldsFromExcel\<close> (lines 54-82). A workbook is its sheets, a sheet its rows, a
  row its cells, each in iteration order. Only cells of type String or RichText are
  scanned; the scanned text is \<open>cell.text || cell.value?.toString() || ''\<close>.
\<close>

datatype ValueType =
  VNull | VMerge | VNumber | VString | VDate | VHyperlink | VFormula | VSharedString
  | VRichText | VBoolean | VError

record excel_cell =
  cell_type :: ValueType
  cell_text :: jsstring
  cell_value_string :: "jsstring option"

definition cell_scan_text :: "excel_cell \<Rightarrow> jsstring" where
  "cell_scan_text c =
     (if cell_text c \<noteq> [] then cell_text c
      else (case cell_value_string c of
              None \<Rightarrow> []
            | Some v \<Rightarrow> v))"

definition scan_cell ::
  "jsstring set \<times> FieldDefinition list \<Rightarrow> excel_cell \<Rightarrow> jsstring set \<times> FieldDefinition list"
where
  "scan_cell st c =
     (if cell_type c = VString \<or> cell_type c = VRichText
      then foldl scan_step st (matchAll (cell_scan_text c))
      else st)"

type_synonym workbook = "excel_cell list list list"

definition extractFieldsFromExcel :: "workbook \<Rightarrow> FieldDefinition list" where
  "extractFieldsFromExcel wb =
     js_sort compareFields
       (snd (foldl (\<lambda>st sheet. foldl (\<lambda>st row. foldl scan_cell st row) st sheet) ({}, []) wb))"

section \<open>Table fragment (docService.ts, lines 85-149)\<close>

text \<open>
  The numbers of a \<open>ProductItem\<close> and the total are IEEE doubles. The code only turns
  them into text, with \<open>String(n)\<close> or through \<open>Array.prototype.join\<close>, so the model
  leaves their type \<open>'n\<close> open and takes the conversion to text, \<open>numToString\<close>, as a
  parameter. Counters that the code computes itself (\<open>index + 1\<close>, \<open>gridSpan\<close>) are
  natural numbers; their text is their decimal numeral.
\<close>

record 'n ProductItem =
  item_id :: jsstring
  name :: jsstring
  model :: jsstring
  unit :: jsstring
  quantity :: 'n
  price :: 'n
  amount :: 'n
  remark :: jsstring

record 'n TableData =
  items :: "'n ProductItem list"
  total :: 'n

text \<open>
  The decimal numeral of a natural number: what \<open>String\<close> gives for a non-negative integer
  below \<open>10^21\<close>.
\<close>

definition digit_chars :: jsstring where
  "digit_chars = ascii ''0123456789''"

fun String_nat :: "nat \<Rightarrow> jsstring" where
  "String_nat n =
     (if n < 10 then [digit_chars ! n]
      else String_nat (n div 10) @ [digit_chars ! (n mod 10)])"

declare String_nat.simps [simp del]

text \<open>
  \<open>String(i)\<close> for an integer-valued number of magnitude below \<open>10^21\<close>: an optional
  minus sign and the decimal digits.
\<close>

definition String_int :: "int \<Rightarrow> jsstring" where
  "String_int i = (if i < 0 then ascii ''-'' @ String_nat (nat (- i)) else String_nat (nat i))"

text \<open>The argument \<open>content: string | number\<close> of \<open>createCell\<close>.\<close>

datatype 'n cell_content = Str jsstring | Num 'n | Idx nat

fun String_content :: "('n \<Rightarrow> jsstring) \<Rightarrow> 'n cell_content \<Rightarrow> jsstring" where
  "String_content numToString (Str s) = s"
| "String_content numToString (Num n) = numToString n"
| "String_content numToString (Idx k) = String_nat k"

text \<open>
  \<open>s.replace(/c/g, r)\<close> for a pattern of one literal character and a replacement text
  without \<open>$\<close>: every occurrence of the character is replaced.
\<close>

definition replace_all :: "jschar \<Rightarrow> jsstring \<Rightarrow> jsstring \<Rightarrow> jsstring" where
  "replace_all c r s = concat (map (\<lambda>x. if x = c then r else [x]) s)"

text \<open>
  \<open>safeContent\<close> (lines 91-94): the three replacements, in the order of the source.
\<close>

definition safeContent :: "jsstring \<Rightarrow> jsstring" where
  "safeContent s =
     replace_all 0x3E (ascii ''&gt;'')
       (replace_all 0x3C (ascii ''&lt;'')
         (replace_all 0x26 (ascii ''&amp;'') s))"

text \<open>
  \<open>createCell\<close> (lines 87-114). The template literal keeps its line breaks and its
  indentation. The defaults of the source (\<open>bold = false\<close>, \<open>align = 'center'\<close>,
  \<open>gridSpan = 0\<close>) are written out at the calls.
\<close>

definition createCell ::
  "('n \<Rightarrow> jsstring) \<Rightarrow> 'n cell_content \<Rightarrow> bool \<Rightarrow> jsstring \<Rightarrow> nat \<Rightarrow> jsstring"
where
  \<open>createCell numToString content bold align gridSpan =
     (let boldXml = (if bold then ascii ''<w:rPr><w:b/></w:rPr>'' else []);
          gridSpanXml =
            (if gridSpan > 0
             then ascii ''<w:gridSpan w:val="'' @ String_nat gridSpan @ ascii ''"/>''
             else []);
          safe = safeContent (String_content numToString content)
      in ascii ''\<newline>      <w:tc>\<newline>        <w:tcPr>\<newline>          <w:tcW w:w="0" w:type="auto"/>\<newline>          '' @ gridSpanXml @
         ascii ''\<newline>          <w:vAlign w:val="center"/>\<newline>        </w:tcPr>\<newline>        <w:p>\<newline>          <w:pPr>\<newline>            <w:jc w:val="'' @ align @
         ascii ''"/>\<newline>          </w:pPr>\<newline>          <w:r>\<newline>            '' @ boldXml @
         ascii ''\<newline>            <w:t>'' @ safe @
         ascii ''</w:t>\<newline>          </w:r>\<newline>        </w:p>\<newline>      </w:tc>\<newline>    '')\<close>

text \<open>The opening of the table with its properties (line 116).\<close>

definition TABLE_OPEN :: jsstring where
  \<open>TABLE_OPEN = ascii ''<w:tbl><w:tblPr><w:tblW w:w="5000" w:type="pct"/><w:tblBorders><w:top w:val="single" w:sz="4" w:space="0" w:color="auto"/><w:left w:val="single" w:sz="4" w:space="0" w:color="auto"/><w:bottom w:val="single" w:sz="4" w:space="0" w:color="auto"/><w:right w:val="single" w:sz="4" w:space="0" w:color="auto"/><w:insideH w:val="single" w:sz="4" w:space="0" w:color="auto"/><w:insideV w:val="single" w:sz="4" w:space="0" w:color="auto"/></w:tblBorders></w:tblPr>''\<close>

text \<open>The eight column labels (line 119) and the label of the total row (line 142).\<close>

definition headers :: "jsstring list" where
  "headers = [[0x5E8F, 0x53F7],
     [0x5546, 0x54C1, 0x540D, 0x79F0],
     [0x578B, 0x53F7],
     [0x5355, 0x4F4D],
     [0x6570, 0x91CF],
     [0x5355, 0x4EF7],
     [0x91D1, 0x989D],
     [0x5907, 0x6CE8]]"

definition TOTAL_LABEL :: jsstring where
  "TOTAL_LABEL = [0x5408, 0x8BA1, 0xFF1A]"

text \<open>\<open>item.remark || ''\<close>: an empty text is falsy, and is replaced by the empty text.\<close>

definition remark_or_empty :: "jsstring \<Rightarrow> jsstring" where
  "remark_or_empty r = (if r \<noteq> [] then r else [])"

text \<open>The body of \<open>items.forEach((item, index) => \<dots>)\<close> (lines 127-138).\<close>

definition append_item_row ::
  "('n \<Rightarrow> jsstring) \<Rightarrow> jsstring \<Rightarrow> nat \<times> 'n ProductItem \<Rightarrow> jsstring"
where
  "append_item_row numToString xml p =
     (case p of (index, item) \<Rightarrow>
        xml @ ascii ''<w:tr>''
          @ createCell numToString (Idx (index + 1)) False (ascii ''center'') 0
          @ createCell numToString (Str (name item)) False (ascii ''center'') 0
          @ createCell numToString (Str (model item)) False (ascii ''center'') 0
          @ createCell numToString (Str (unit item)) False (ascii ''center'') 0
          @ createCell numToString (Num (quantity item)) False (ascii ''center'') 0
          @ createCell numToString (Num (price item)) False (ascii ''center'') 0
          @ createCell numToString (Num (amount item)) False (ascii ''center'') 0
          @ createCell numToString (Str (remark_or_empty (remark item))) False (ascii ''center'') 0
          @ ascii ''</w:tr>'')"

text \<open>
  \<open>generateTableXml\<close>: the text \<open>xml\<close> grows by \<open>+=\<close>; the two \<open>forEach\<close> loops are
  folds over the headers and over the items with their indices.
\<close>

definition generateTableXml :: "('n \<Rightarrow> jsstring) \<Rightarrow> 'n ProductItem list \<Rightarrow> 'n \<Rightarrow> jsstring" where
  "generateTableXml numToString its tot =
     (let xml = TABLE_OPEN;
          xml = xml @ ascii ''<w:tr>'';
          xml = foldl (\<lambda>xml h. xml @ createCell numToString (Str h) True (ascii ''center'') 0)
                  xml headers;
          xml = xml @ ascii ''</w:tr>'';
          xml = foldl (append_item_row numToString) xml (zip [0 ..< length its] its);
          xml = xml @ ascii ''<w:tr>'';
          xml = xml @ createCell numToString (Str TOTAL_LABEL) True (ascii ''right'') 6;
          xml = xml @ createCell numToString (Num tot) True (ascii ''center'') 0;
          xml = xml @ createCell numToString (Str []) False (ascii ''center'') 0;
          xml = xml @ ascii ''</w:tr>'';
          xml = xml @ ascii ''</w:tbl>''
      in xml)"

section \<open>Tabular export (docService.ts, lines 353-375)\<close>

text \<open>
  \<open>Array.prototype.join(sep)\<close> on elements that are already texts: the elements in
  order, with the separator between any two neighbours and nothing else.
\<close>

fun js_join :: "jsstring \<Rightarrow> jsstring list \<Rightarrow> jsstring" where
  "js_join sep [] = []"
| "js_join sep [x] = x"
| "js_join sep (x # y # ys) = x @ sep @ js_join sep (y # ys)"

text \<open>
  A \<open>Blob\<close> built from one text holds the UTF-8 encoding of that text. The text is read
  as UTF-16: a high surrogate followed by a low surrogate is one code point, a surrogate
  on its own is replaced by U+FFFD.
\<close>

definition is_high_surrogate :: "jschar \<Rightarrow> bool" where
  "is_high_surrogate c = (0xD800 \<le> c \<and> c \<le> 0xDBFF)"

definition is_low_surrogate :: "jschar \<Rightarrow> bool" where
  "is_low_surrogate c = (0xDC00 \<le> c \<and> c \<le> 0xDFFF)"

definition scalar_of_unit :: "jschar \<Rightarrow> nat" where
  "scalar_of_unit c = (if is_high_surrogate c \<or> is_low_surrogate c then 0xFFFD else unat c)"

fun code_points :: "jsstring \<Rightarrow> nat list" where
  "code_points [] = []"
| "code_points [c] = [scalar_of_unit c]"
| "code_points (c # d # cs) =
     (if is_high_surrogate c \<and> is_low_surrogate d
      then (0x10000 + (unat c - 0xD800) * 0x400 + (unat d - 0xDC00)) # code_points cs
      else scalar_of_unit c # code_points (d # cs))"

definition utf8_bytes :: "nat \<Rightarrow> 8 word list" where
  "utf8_bytes cp =
     (if cp < 0x80 then [of_nat cp]
      else if cp < 0x800 then [of_nat (0xC0 + cp div 0x40), of_nat (0x80 + cp mod 0x40)]
      else if cp < 0x10000 then
        [of_nat (0xE0 + cp div 0x1000), of_nat (0x80 + cp div 0x40 mod 0x40),
         of_nat (0x80 + cp mod 0x40)]
      else
        [of_nat (0xF0 + cp div 0x40000), of_nat (0x80 + cp div 0x1000 mod 0x40),
         of_nat (0x80 + cp div 0x40 mod 0x40), of_nat (0x80 + cp mod 0x40)])"

definition utf8_encode :: "jsstring \<Rightarrow> 8 word list" where
  "utf8_encode s = concat (map utf8_bytes (code_points s))"

record blob =
  blob_bytes :: "8 word list"
  blob_type :: jsstring

text \<open>The label of the total row in the export and in the worksheet (lines 339 and 366): U+5408 U+8BA1.\<close>

definition TOTAL_LABEL_BARE :: jsstring where
  "TOTAL_LABEL_BARE = [0x5408, 0x8BA1]"

text \<open>
  \<open>generateExcelTable\<close>. Its \<open>header\<close> array (line 354) has the same eight labels as the
  one of \<open>generateTableXml\<close>. \<open>join\<close> turns every element into text as \<open>String\<close> does.
\<close>

definition generateExcelTable :: "('n \<Rightarrow> jsstring) \<Rightarrow> 'n ProductItem list \<Rightarrow> 'n \<Rightarrow> blob" where
  "generateExcelTable numToString its tot =
     (let header = headers;
          rows = map (\<lambda>(index, item).
                   [Idx (index + 1), Str (name item), Str (model item), Str (unit item),
                    Num (quantity item), Num (price item), Num (amount item),
                    Str (remark item)])
                 (zip [0 ..< length its] its);
          rows = rows @ [[Str [], Str [], Str [], Str [], Str [], Str TOTAL_LABEL_BARE, Num tot,
                          Str []]];
          csvContent =
            js_join (ascii ''\<newline>'')
              (js_join (ascii '','') header
               # map (\<lambda>row. js_join (ascii '','') (map (String_content numToString) row)) rows)
      in \<lparr>blob_bytes = utf8_encode (0xFEFF # csvContent),
          blob_type = ascii ''text/csv;charset=utf-8;''\<rparr>)"

section \<open>Table rows in a worksheet (docService.ts, lines 305-346)\<close>

text \<open>
  A worksheet is the list of its rows, row 1 first. Of a row the model keeps the cell
  values, whether its font is bold, its horizontal alignment, and the alignments set on
  single cells afterwards. \<open>XCount\<close> is a number that the code computed as a counter.
\<close>

datatype 'n xl_value = XNull | XString jsstring | XNumber 'n | XCount nat

record 'n xl_row =
  row_values :: "'n xl_value list"
  font_bold :: bool
  horizontal :: "jsstring option"
  cell_horizontal :: "(nat \<times> jsstring) list"

type_synonym 'n worksheet = "'n xl_row list"

definition blank_row :: "'n xl_row" where
  "blank_row = \<lparr>row_values = [], font_bold = False, horizontal = None, cell_horizontal = []\<rparr>"

text \<open>
  \<open>worksheet.getRow(n)\<close> followed by assignments to the row: the row is created blank
  when the sheet is shorter.
\<close>

definition update_row :: "nat \<Rightarrow> ('n xl_row \<Rightarrow> 'n xl_row) \<Rightarrow> 'n worksheet \<Rightarrow> 'n worksheet" where
  "update_row n f ws =
     (let ws = ws @ replicate (n - length ws) blank_row in ws[n - 1 := f (ws ! (n - 1))])"

text \<open>
  \<open>worksheet.insertRow(pos, values)\<close>: a new row with these values at position \<open>pos\<close>;
  the rows from \<open>pos\<close> on move down by one. The new row has no style of its own.
\<close>

definition insertRow :: "nat \<Rightarrow> 'n xl_value list \<Rightarrow> 'n worksheet \<Rightarrow> 'n worksheet" where
  "insertRow pos vals ws =
     (let ws = ws @ replicate (pos - 1 - length ws) blank_row
      in take (pos - 1) ws @ [blank_row\<lparr>row_values := vals\<rparr>] @ drop (pos - 1) ws)"

text \<open>The body of \<open>tableData.items.forEach((item, idx) => \<dots>)\<close> (lines 319-336).\<close>

definition insert_item_row ::
  "'n worksheet \<times> nat \<Rightarrow> nat \<times> 'n ProductItem \<Rightarrow> 'n worksheet \<times> nat"
where
  "insert_item_row st p =
     (case (st, p) of ((ws, currentRowIdx), (idx, item)) \<Rightarrow>
        (let rowValues =
               [XCount (idx + 1), XString (name item), XString (model item),
                XString (unit item), XNumber (quantity item), XNumber (price item),
                XNumber (amount item), XString (remark item)];
             ws = insertRow currentRowIdx rowValues ws;
             ws = update_row currentRowIdx
                    (\<lambda>r. r\<lparr>horizontal := Some (ascii ''center''), cell_horizontal := []\<rparr>) ws
         in (ws, currentRowIdx + 1)))"

text \<open>
  The block \<open>if (tableInsertionRow !== -1 && tableData) { \<dots> }\<close>, on the worksheet as the
  scan of the cells left it. \<open>tableInsertionRow\<close> is the number of the row in which the
  scan found the tag of the table field, or \<open>-1\<close>.
\<close>

definition insertTableRows ::
  "int \<Rightarrow> 'n TableData option \<Rightarrow> 'n worksheet \<Rightarrow> 'n worksheet"
where
  "insertTableRows tableInsertionRow tableData ws =
     (case tableData of
        None \<Rightarrow> ws
      | Some td \<Rightarrow>
          if tableInsertionRow \<noteq> - 1 then
            (let ws = update_row (nat tableInsertionRow)
                        (\<lambda>r. r\<lparr>row_values := map XString headers, font_bold := True,
                                horizontal := Some (ascii ''center''),
                                cell_horizontal := []\<rparr>) ws;
                 currentRowIdx = nat tableInsertionRow + 1;
                 (ws, currentRowIdx) =
                   foldl insert_item_row (ws, currentRowIdx)
                     (zip [0 ..< length (items td)] (items td));
                 totalRowValues =
                   [XString TOTAL_LABEL_BARE, XString [], XString [], XString [], XString [],
                    XString [], XNumber (total td), XString []];
                 ws = insertRow currentRowIdx totalRowValues ws;
                 ws = update_row currentRowIdx
                        (\<lambda>r. r\<lparr>font_bold := True, horizontal := Some (ascii ''right''),
                                cell_horizontal := [(7, ascii ''center'')]\<rparr>) ws
             in ws)
          else ws)"

section \<open>Filling a document (docService.ts, lines 151-259)\<close>

text \<open>
  The markup tree that \<open>DOMParser\<close> returns. A document is given by its root element.
  Other kinds of nodes (comments, processing instructions) carry no text content.
\<close>

datatype dom =
  Element jsstring "(jsstring \<times> jsstring) list" "dom list"
  | TextNode jsstring
  | OtherNode

fun nodeName :: "dom \<Rightarrow> jsstring" where
  "nodeName (Element nm attrs children) = nm"
| "nodeName (TextNode s) = ascii ''#text''"
| "nodeName OtherNode = ascii ''#other''"

fun childNodes :: "dom \<Rightarrow> dom list" where
  "childNodes (Element nm attrs children) = children"
| "childNodes (TextNode s) = []"
| "childNodes OtherNode = []"

text \<open>\<open>node.textContent\<close>: the text of all text nodes below the node, in document order.\<close>

fun textContent :: "dom \<Rightarrow> jsstring" where
  "textContent (Element nm attrs children) = concat (map textContent children)"
| "textContent (TextNode s) = s"
| "textContent OtherNode = []"

text \<open>
  A node of a tree is named by its path from the root: the positions of the children to
  descend into. The parent of a node is named by the path without its last position; the
  root's parent is the document, which has no \<open>w:p\<close> name and no parent.
\<close>

type_synonym path = "nat list"

fun node_at :: "dom \<Rightarrow> path \<Rightarrow> dom option" where
  "node_at t [] = Some t"
| "node_at t (i # p) =
     (if i < length (childNodes t) then node_at (childNodes t ! i) p else None)"

text \<open>
  \<open>xmlDoc.getElementsByTagName(nm)\<close>: the elements with this name, in document order
  (an element before its descendants, children from left to right).
\<close>

fun elementsByTagName :: "jsstring \<Rightarrow> dom \<Rightarrow> path list"
  and elementsBelow :: "jsstring \<Rightarrow> nat \<Rightarrow> dom list \<Rightarrow> path list"
where
  "elementsByTagName nm (Element n attrs children) =
     (if n = nm then [[]] else []) @ elementsBelow nm 0 children"
| "elementsByTagName nm (TextNode s) = []"
| "elementsByTagName nm OtherNode = []"
| "elementsBelow nm i [] = []"
| "elementsBelow nm i (c # cs) =
     map (\<lambda>p. i # p) (elementsByTagName nm c) @ elementsBelow nm (Suc i) cs"

text \<open>
  The loop \<open>while (currentNode && currentNode.nodeName !== "w:p") currentNode =
  currentNode.parentNode\<close>, started at the node with path \<open>p\<close>: the nearest node named
  \<open>w:p\<close> among the node and its ancestors, \<open>None\<close> when the walk leaves the tree.
\<close>

function enclosing_paragraph :: "dom \<Rightarrow> path \<Rightarrow> path option" where
  "enclosing_paragraph root p =
     (case node_at root p of
        None \<Rightarrow> None
      | Some node \<Rightarrow>
          if nodeName node = ascii ''w:p'' then Some p
          else if p = [] then None
          else enclosing_paragraph root (butlast p))"
  by pat_completeness auto
termination
  by (relation "measure (\<lambda>(root, p). length p)") auto

declare enclosing_paragraph.simps [simp del]

text \<open>
  The search loop over \<open>textNodes\<close> (lines 203-215): the first \<open>w:t\<close> element whose text
  content is exactly the placeholder and that has an enclosing \<open>w:p\<close> decides; the result
  is the path of that paragraph.
\<close>

fun find_target :: "dom \<Rightarrow> jsstring \<Rightarrow> path list \<Rightarrow> path option" where
  "find_target root tablePlaceholder [] = None"
| "find_target root tablePlaceholder (p # ps) =
     (if map_option textContent (node_at root p) = Some tablePlaceholder then
        (case enclosing_paragraph root p of
           Some q \<Rightarrow> Some q
         | None \<Rightarrow> find_target root tablePlaceholder ps)
      else find_target root tablePlaceholder ps)"

text \<open>\<open>parent.replaceChild(new, old)\<close> for the node \<open>old\<close> at a path.\<close>

fun replace_at :: "dom \<Rightarrow> path \<Rightarrow> dom \<Rightarrow> dom" where
  "replace_at t [] new = new"
| "replace_at (Element nm attrs children) (i # p) new =
     (if i < length children
      then Element nm attrs (children[i := replace_at (children ! i) p new])
      else Element nm attrs children)"
| "replace_at (TextNode s) (i # p) new = TextNode s"
| "replace_at OtherNode (i # p) new = OtherNode"

text \<open>
  A package is its parts by name; a part is given by its text. The content of the file is
  given by its length in bytes and by what \<open>new PizZip(content)\<close> makes of the bytes: the
  package, or the error it throws. What the code does not contain is taken as a
  parameter: the template engine (\<open>Docxtemplater\<close> with its \<open>render\<close>, from the package
  and the template data to the rendered package, or an error), the parser and the
  serialiser of the browser, and the number that \<open>Math.floor(Math.random() * 100000)\<close>
  returned.
\<close>

type_synonym package = "jsstring \<rightharpoonup> jsstring"

type_synonym template_data = "jsstring \<rightharpoonup> jsstring"

record 'e file_content =
  byteLength :: nat
  archive :: "'e + package"

record 'e environment =
  render :: "package \<Rightarrow> template_data \<Rightarrow> 'e + package"
  parseFromString :: "jsstring \<Rightarrow> dom"
  serializeToString :: "dom \<Rightarrow> jsstring"
  random_number :: nat

datatype 'e failure = CannotReadFileContent | EngineFailure 'e

datatype console_entry = ConsoleWarn jsstring | ConsoleError

definition DOCUMENT_PART :: jsstring where
  "DOCUMENT_PART = ascii ''word/document.xml''"

definition PLACEHOLDER_WARNING :: jsstring where
  "PLACEHOLDER_WARNING =
     ascii ''Table placeholder not found in rendered XML. The tag might have been removed or altered.''"

text \<open>
  \<open>"___INSERT_TABLE_HERE_" + Math.floor(Math.random() * 100000) + "___"\<close> (line 171).
\<close>

definition tablePlaceholder :: "nat \<Rightarrow> jsstring" where
  "tablePlaceholder rnd = ascii ''___INSERT_TABLE_HERE_'' @ String_nat rnd @ ascii ''___''"

text \<open>The template literal of line 222 around the fragment.\<close>

definition wrappedTableXml :: "jsstring \<Rightarrow> jsstring" where
  \<open>wrappedTableXml tableXmlBody =
     ascii ''<root xmlns:w="http://schemas.openxmlformats.org/wordprocessingml/2006/main">''
     @ tableXmlBody @ ascii ''</root>''\<close>

text \<open>
  Step 3 of the source (lines 194-242), on the rendered package: the package after the
  step and what was written to the console.
\<close>

definition splice_table ::
  "'e environment \<Rightarrow> ('n \<Rightarrow> jsstring) \<Rightarrow> jsstring \<Rightarrow> FieldDefinition option \<Rightarrow>
   'n TableData option \<Rightarrow> package \<Rightarrow> package \<times> console_entry list"
where
  "splice_table env numToString placeholder tableField tableData outZip =
     (case (outZip DOCUMENT_PART, tableField, tableData) of
        (Some docXmlContent, Some tf, Some td) \<Rightarrow>
          if docXmlContent \<noteq> [] then
            (let xmlDoc = parseFromString env docXmlContent;
                 textNodes = elementsByTagName (ascii ''w:t'') xmlDoc
             in case find_target xmlDoc placeholder textNodes of
                  Some targetParagraph \<Rightarrow>
                    (let tableXmlBody = generateTableXml numToString (items td) (total td);
                         tempDoc = parseFromString env (wrappedTableXml tableXmlBody)
                     in case elementsByTagName (ascii ''w:tbl'') tempDoc of
                          [] \<Rightarrow> (outZip, [])
                        | t # ts \<Rightarrow>
                            (case node_at tempDoc t of
                               None \<Rightarrow> (outZip, [])
                             | Some tableNode \<Rightarrow>
                                 (let newDocXml =
                                        serializeToString env
                                          (replace_at xmlDoc targetParagraph tableNode)
                                  in (outZip(DOCUMENT_PART \<mapsto> newDocXml), []))))
                | None \<Rightarrow> (outZip, [ConsoleWarn PLACEHOLDER_WARNING]))
          else (outZip, [])
      | _ \<Rightarrow> (outZip, []))"

text \<open>
  \<open>generateFilledDocument\<close>, from the moment the file has been read: \<open>content\<close> is
  \<open>event.target?.result\<close>, \<open>None\<close> when it is null. The result is the settled promise (\<open>Inl\<close> a rejection, \<open>Inr\<close>
  the package that \<open>outZip.generate\<close> packs into the blob, which is taken to succeed) and
  the console output.
  The argument \<open>fields\<close> of the source is \<open>fieldDefs\<close> here, and its constant \<open>zip\<close> is
  \<open>inZip\<close>. The constructor of \<open>Docxtemplater\<close>, \<open>doc.render\<close> and \<open>doc.getZip\<close> are the one
  step \<open>render\<close> of the environment.
\<close>

definition generateFilledDocument ::
  "'e environment \<Rightarrow> ('n \<Rightarrow> jsstring) \<Rightarrow> 'e file_content option \<Rightarrow> template_data \<Rightarrow>
   'n TableData option \<Rightarrow> FieldDefinition list option \<Rightarrow>
   ('e failure + package) \<times> console_entry list"
where
  "generateFilledDocument env numToString content data tableData fieldDefs =
     (case content of
        None \<Rightarrow> (Inl CannotReadFileContent, [ConsoleError])
      | Some c \<Rightarrow>
          if byteLength c = 0 then (Inl CannotReadFileContent, [ConsoleError])
          else
            (let placeholder = tablePlaceholder (random_number env);
                 tableField = (case fieldDefs of None \<Rightarrow> None | Some fs \<Rightarrow> find isTable fs);
                 templateData =
                   (case tableField of
                      None \<Rightarrow> data
                    | Some tf \<Rightarrow> data(fieldName tf \<mapsto> placeholder))
             in case archive c of
                  Inl e \<Rightarrow> (Inl (EngineFailure e), [ConsoleError])
                | Inr inZip \<Rightarrow>
                    (case render env inZip templateData of
                       Inl e \<Rightarrow> (Inl (EngineFailure e), [ConsoleError])
                     | Inr outZip \<Rightarrow>
                         (case splice_table env numToString placeholder tableField tableData
                                 outZip of
                            (outZip, console) \<Rightarrow> (Inr outZip, console)))))"

text \<open>
  \<open>ProductTable\<close> (components/ProductTable.tsx, lines 16-21) is the caller that builds
  the table data: \<open>items.reduce((sum, item) => sum + item.amount, 0)\<close> is the total it
  hands to \<open>onSave\<close>. The addition of numbers and the number zero are parameters.
\<close>

definition ProductTable_onSave ::
  "('n \<Rightarrow> 'n \<Rightarrow> 'n) \<Rightarrow> 'n \<Rightarrow> 'n ProductItem list \<Rightarrow> 'n TableData"
where
  "ProductTable_onSave add_num zero_num its =
     \<lparr>items = its, total = foldl (\<lambda>acc item. add_num acc (amount item)) zero_num its\<rparr>"

section \<open>Notions used to state the properties of the scan\<close>

text \<open>The key of the deduplication: the trimmed interior of a match.\<close>

definition match_name :: "regex_match \<Rightarrow> jsstring" where
  "match_name m = trim (group1 m)"

text \<open>The field definition that the scan pushes for a match it has not seen before.\<close>

definition field_of_match :: "regex_match \<Rightarrow> FieldDefinition" where
  "field_of_match m =
     \<lparr>originalTag = whole m, fieldName = trim (group1 m),
      isTable = includes_js (trim (group1 m)) TABLE_KEYWORD\<rparr>"

text \<open>The matches that pass the \<open>uniqueFields\<close> test, given the names seen so far.\<close>

fun first_matches :: "jsstring set \<Rightarrow> regex_match list \<Rightarrow> regex_match list" where
  "first_matches seen [] = []"
| "first_matches seen (m # ms) =
     (if match_name m \<in> seen then first_matches seen ms
      else m # first_matches (insert (match_name m) seen) ms)"

text \<open>First-occurrence order: every element once, at the place of its first occurrence.\<close>

definition first_occurrences :: "'a list \<Rightarrow> 'a list" where
  "first_occurrences ns = rev (remdups (rev ns))"

text \<open>The tag text \<open>{-x-}\<close> around an interior \<open>x\<close>.\<close>

definition placeholder_tag :: "jsstring \<Rightarrow> jsstring" where
  "placeholder_tag x = OPEN_DELIM @ x @ CLOSE_DELIM"

text \<open>All matches of a workbook, in the order in which \<open>extractFieldsFromExcel\<close> visits them.\<close>

definition excel_matches :: "workbook \<Rightarrow> regex_match list" where
  "excel_matches wb =
     concat (map (\<lambda>c. matchAll (cell_scan_text c))
       (filter (\<lambda>c. cell_type c = VString \<or> cell_type c = VRichText) (concat (concat wb))))"

text \<open>What both scans do with their list of matches.\<close>

definition scan_result :: "regex_match list \<Rightarrow> FieldDefinition list" where
  "scan_result ms = js_sort compareFields (snd (foldl scan_step ({}, []) ms))"

section \<open>Reading a fragment back\<close>

text \<open>
  To state what a fragment holds, its text is read back: cut into tags and character
  data, the character data decoded, and the rows, cells and text runs collected. The
  reader is only as general as the fragments of \<open>generateTableXml\<close> need: elements
  \<open>w:tr\<close>, \<open>w:tc\<close> and \<open>w:t\<close> carry no attributes and do not nest in themselves.
\<close>

datatype xml_token = Tag jsstring | Chars jsstring

datatype lex_mode = InText | InTag

text \<open>
  One character of the lexer. The state is the mode, the characters of the current piece
  (newest first) and the tokens so far (newest first). Character data is recorded between
  any two tags, also when it is empty.
\<close>

fun lex_step ::
  "jschar \<Rightarrow> lex_mode \<times> jsstring \<times> xml_token list \<Rightarrow> lex_mode \<times> jsstring \<times> xml_token list"
where
  "lex_step c (InText, acc, out) =
     (if c = 0x3C then (InTag, [], Chars (rev acc) # out) else (InText, c # acc, out))"
| "lex_step c (InTag, acc, out) =
     (if c = 0x3E then (InText, [], Tag (rev acc) # out) else (InTag, c # acc, out))"

definition xml_tokens :: "jsstring \<Rightarrow> xml_token list" where
  "xml_tokens s =
     (case fold lex_step s (InText, [], []) of
        (InText, acc, out) \<Rightarrow> rev (Chars (rev acc) # out)
      | (InTag, acc, out) \<Rightarrow> rev out)"

text \<open>
  Decoding of character data: the references \<open>&amp;\<close>, \<open>&lt;\<close> and \<open>&gt;\<close> stand for
  \<open>&\<close>, \<open><\<close> and \<open>>\<close>; every other character stands for itself.
\<close>

fun xml_unescape :: "jsstring \<Rightarrow> jsstring" where
  "xml_unescape [] = []"
| "xml_unescape (c # cs) =
     (if c = 0x26 \<and> starts_with cs (ascii ''amp;'') then 0x26 # xml_unescape (drop 4 cs)
      else if c = 0x26 \<and> starts_with cs (ascii ''lt;'') then 0x3C # xml_unescape (drop 3 cs)
      else if c = 0x26 \<and> starts_with cs (ascii ''gt;'') then 0x3E # xml_unescape (drop 3 cs)
      else c # xml_unescape cs)"

text \<open>
  The contents of the elements with a given name: for each start tag \<open><nm>\<close>, the tokens
  up to the next end tag \<open></nm>\<close>.
\<close>

function elements_named :: "jsstring \<Rightarrow> xml_token list \<Rightarrow> xml_token list list" where
  "elements_named nm toks =
     (case dropWhile (\<lambda>t. t \<noteq> Tag nm) toks of
        [] \<Rightarrow> []
      | start # rest \<Rightarrow>
          takeWhile (\<lambda>t. t \<noteq> Tag (0x2F # nm)) rest
          # elements_named nm (drop 1 (dropWhile (\<lambda>t. t \<noteq> Tag (0x2F # nm)) rest)))"
  by pat_completeness auto
termination
proof (relation "measure (\<lambda>(nm, toks). length toks)")
  show "wf (measure (\<lambda>(nm, toks). length toks))"
    by simp
next
  fix nm :: jsstring and toks :: "xml_token list" and start rest
  assume d: "dropWhile (\<lambda>t. t \<noteq> Tag nm) toks = start # rest"
  have "length (dropWhile (\<lambda>t. t \<noteq> Tag (0x2F # nm)) rest) \<le> length rest"
    by (rule length_dropWhile_le)
  moreover have "length (start # rest) \<le> length toks"
    unfolding d [symmetric] by (rule length_dropWhile_le)
  ultimately show
    "((nm, drop 1 (dropWhile (\<lambda>t. t \<noteq> Tag (0x2F # nm)) rest)), (nm, toks))
       \<in> measure (\<lambda>(nm, toks). length toks)"
    by simp
qed

declare elements_named.simps [simp del]

fun token_text :: "xml_token \<Rightarrow> jsstring" where
  "token_text (Chars s) = xml_unescape s"
| "token_text (Tag t) = []"

text \<open>The value of an attribute, for the first tag that starts with the given text.\<close>

fun tag_starts :: "jsstring \<Rightarrow> xml_token \<Rightarrow> bool" where
  "tag_starts p (Tag t) = starts_with t p"
| "tag_starts p (Chars s) = False"

definition attr_value :: "jsstring \<Rightarrow> xml_token list \<Rightarrow> jsstring option" where
  "attr_value p toks =
     (case find (tag_starts p) toks of
        Some (Tag t) \<Rightarrow> Some (takeWhile (\<lambda>c. c \<noteq> 0x22) (drop (length p) t))
      | _ \<Rightarrow> None)"

text \<open>
  What a cell shows: the text of its \<open>w:t\<close> runs, whether the run is bold (\<open><w:b/>\<close>), the
  paragraph alignment (\<open>w:jc\<close>) and the number of grid columns it spans (\<open>w:gridSpan\<close>).
\<close>

record cell_view =
  cell_shown :: jsstring
  cell_bold :: bool
  cell_align :: "jsstring option"
  cell_span :: "jsstring option"

definition read_cell :: "xml_token list \<Rightarrow> cell_view" where
  \<open>read_cell toks =
     \<lparr>cell_shown = concat (map (\<lambda>run. concat (map token_text run))
                       (elements_named (ascii ''w:t'') toks)),
      cell_bold = (Tag (ascii ''w:b/'') \<in> set toks),
      cell_align = attr_value (ascii ''w:jc w:val="'') toks,
      cell_span = attr_value (ascii ''w:gridSpan w:val="'') toks\<rparr>\<close>

text \<open>The rows of a fragment, each as the list of its cells.\<close>

definition fragment_rows :: "jsstring \<Rightarrow> cell_view list list" where
  "fragment_rows xml =
     map (\<lambda>row. map read_cell (elements_named (ascii ''w:tc'') row))
       (elements_named (ascii ''w:tr'') (xml_tokens xml))"

text \<open>
  The tokens of one cell, from \<open><w:tc>\<close> to \<open></w:tc>\<close>, for the escaped content
  \<open>safe\<close>; \<open>CELL_LEAD\<close> and \<open>CELL_TRAIL\<close> are the blanks of the template before and
  after them.
\<close>

definition CELL_LEAD :: jsstring where
  "CELL_LEAD = ascii ''\<newline>      ''"

definition CELL_TRAIL :: jsstring where
  "CELL_TRAIL = ascii ''\<newline>    ''"

definition cell_inner :: "jsstring \<Rightarrow> bool \<Rightarrow> jsstring \<Rightarrow> nat \<Rightarrow> xml_token list" where
  \<open>cell_inner safe bold align gridSpan =
       [Chars (ascii ''\<newline>        ''),
        Tag (ascii ''w:tcPr''),
        Chars (ascii ''\<newline>          ''),
        Tag (ascii ''w:tcW w:w="0" w:type="auto"/'')] @
       (if gridSpan > 0
        then [Chars (ascii ''\<newline>          ''),
              Tag (ascii ''w:gridSpan w:val="'' @ String_nat gridSpan @ ascii ''"/''),
              Chars (ascii ''\<newline>          '')]
        else [Chars (ascii ''\<newline>          \<newline>          '')]) @
       [Tag (ascii ''w:vAlign w:val="center"/''),
        Chars (ascii ''\<newline>        ''),
        Tag (ascii ''/w:tcPr''),
        Chars (ascii ''\<newline>        ''),
        Tag (ascii ''w:p''),
        Chars (ascii ''\<newline>          ''),
        Tag (ascii ''w:pPr''),
        Chars (ascii ''\<newline>            ''),
        Tag (ascii ''w:jc w:val="'' @ align @ ascii ''"/''),
        Chars (ascii ''\<newline>          ''),
        Tag (ascii ''/w:pPr''),
        Chars (ascii ''\<newline>          ''),
        Tag (ascii ''w:r'')] @
       (if bold
        then [Chars (ascii ''\<newline>            ''), Tag (ascii ''w:rPr''), Chars [], Tag (ascii ''w:b/''), Chars [],
              Tag (ascii ''/w:rPr''), Chars (ascii ''\<newline>            '')]
        else [Chars (ascii ''\<newline>            \<newline>            '')]) @
       [Tag (ascii ''w:t''),
        Chars safe,
        Tag (ascii ''/w:t''),
        Chars (ascii ''\<newline>          ''),
        Tag (ascii ''/w:r''),
        Chars (ascii ''\<newline>        ''),
        Tag (ascii ''/w:p''),
        Chars (ascii ''\<newline>      '')]\<close>

definition cell_tokens :: "jsstring \<Rightarrow> bool \<Rightarrow> jsstring \<Rightarrow> nat \<Rightarrow> xml_token list" where
  "cell_tokens safe bold align gridSpan =
     Tag (ascii ''w:tc'') # cell_inner safe bold align gridSpan @ [Tag (ascii ''/w:tc'')]"

text \<open>
  A cell as \<open>generateTableXml\<close> asks for it: the arguments of one call of \<open>createCell\<close>.
\<close>

type_synonym 'n cell_spec = "'n cell_content \<times> bool \<times> jsstring \<times> nat"

definition cell_text :: "('n \<Rightarrow> jsstring) \<Rightarrow> 'n cell_spec \<Rightarrow> jsstring" where
  "cell_text numToString spec =
     (case spec of (content, bold, align, gridSpan) \<Rightarrow>
        createCell numToString content bold align gridSpan)"

text \<open>What a reader is to see of such a cell.\<close>

definition cell_expected :: "('n \<Rightarrow> jsstring) \<Rightarrow> 'n cell_spec \<Rightarrow> cell_view" where
  "cell_expected numToString spec =
     (case spec of (content, bold, align, gridSpan) \<Rightarrow>
        \<lparr>cell_shown = String_content numToString content, cell_bold = bold,
         cell_align = Some align,
         cell_span = (if gridSpan > 0 then Some (String_nat gridSpan) else None)\<rparr>)"

text \<open>
  The tokens between \<open><w:tr>\<close> and \<open></w:tr>\<close> for a row of cells; \<open>pend\<close> is the
  character data that precedes the first cell.
\<close>

fun row_cell_tokens :: "('n \<Rightarrow> jsstring) \<Rightarrow> jsstring \<Rightarrow> 'n cell_spec list \<Rightarrow> xml_token list" where
  "row_cell_tokens numToString pend [] = [Chars pend]"
| "row_cell_tokens numToString pend ((content, bold, align, gridSpan) # specs) =
     Chars (pend @ CELL_LEAD)
     # cell_tokens (safeContent (String_content numToString content)) bold align gridSpan
     @ row_cell_tokens numToString CELL_TRAIL specs"

text \<open>The rows that \<open>generateTableXml\<close> asks for: header row, item rows, total row.\<close>

definition header_specs :: "'n cell_spec list" where
  "header_specs = map (\<lambda>h. (Str h, True, ascii ''center'', 0)) headers"

definition item_specs :: "nat \<times> 'n ProductItem \<Rightarrow> 'n cell_spec list" where
  "item_specs p =
     (case p of (index, item) \<Rightarrow>
        [(Idx (index + 1), False, ascii ''center'', 0),
         (Str (name item), False, ascii ''center'', 0),
         (Str (model item), False, ascii ''center'', 0),
         (Str (unit item), False, ascii ''center'', 0),
         (Num (quantity item), False, ascii ''center'', 0),
         (Num (price item), False, ascii ''center'', 0),
         (Num (amount item), False, ascii ''center'', 0),
         (Str (remark_or_empty (remark item)), False, ascii ''center'', 0)])"

definition total_specs :: "'n \<Rightarrow> 'n cell_spec list" where
  "total_specs tot =
     [(Str TOTAL_LABEL, True, ascii ''right'', 6),
      (Num tot, True, ascii ''center'', 0),
      (Str [], False, ascii ''center'', 0)]"

definition table_specs :: "'n ProductItem list \<Rightarrow> 'n \<Rightarrow> 'n cell_spec list list" where
  "table_specs its tot =
     header_specs # map item_specs (zip [0 ..< length its] its) @ [total_specs tot]"

definition row_text :: "('n \<Rightarrow> jsstring) \<Rightarrow> 'n cell_spec list \<Rightarrow> jsstring" where
  "row_text numToString specs =
     ascii ''<w:tr>'' @ concat (map (cell_text numToString) specs) @ ascii ''</w:tr>''"

definition escape_char :: "jschar \<Rightarrow> jsstring" where
  "escape_char c =
     (if c = 0x26 then ascii ''&amp;''
      else if c = 0x3C then ascii ''&lt;''
      else if c = 0x3E then ascii ''&gt;''
      else [c])"

text \<open>The alignment text of every cell is free of \<open>>\<close> and of the double quote, as the two alignments of the source (\<open>center\<close>, \<open>right\<close>) are.\<close>

definition specs_ok :: "'n cell_spec list \<Rightarrow> bool" where
  "specs_ok specs = list_all (\<lambda>(content, bold, align, gridSpan). 0x3E \<notin> set align \<and> 0x22 \<notin> set align) specs"

text \<open>The tokens of a whole row, with the empty character data before its start tag.\<close>

definition row_tokens :: "('n \<Rightarrow> jsstring) \<Rightarrow> 'n cell_spec list \<Rightarrow> xml_token list" where
  "row_tokens numToString specs =
     Chars [] # Tag (ascii ''w:tr'') # row_cell_tokens numToString [] specs @ [Tag (ascii ''/w:tr'')]"

text \<open>The tokens of the opening of the table.\<close>

definition TABLE_OPEN_tokens :: "xml_token list" where
  "TABLE_OPEN_tokens = rev (snd (snd (fold lex_step TABLE_OPEN (InText, [], []))))"
section \<open>Notions used to state the properties of the worksheet rows\<close>

text \<open>
  The header row (the row of the tag, overwritten), the row of an item and the total row,
  as \<open>insertTableRows\<close> leaves them.
\<close>

definition header_row :: "'n xl_row \<Rightarrow> 'n xl_row" where
  "header_row r =
     r\<lparr>row_values := map XString headers, font_bold := True,
       horizontal := Some (ascii ''center''), cell_horizontal := []\<rparr>"

definition item_row :: "nat \<times> 'n ProductItem \<Rightarrow> 'n xl_row" where
  "item_row p =
     (case p of (idx, item) \<Rightarrow>
        \<lparr>row_values =
           [XCount (idx + 1), XString (name item), XString (model item), XString (unit item),
            XNumber (quantity item), XNumber (price item), XNumber (amount item),
            XString (remark item)],
         font_bold = False, horizontal = Some (ascii ''center''), cell_horizontal = []\<rparr>)"

definition total_row :: "'n \<Rightarrow> 'n xl_row" where
  "total_row tot =
     \<lparr>row_values =
        [XString TOTAL_LABEL_BARE, XString [], XString [], XString [], XString [], XString [],
         XNumber tot, XString []],
      font_bold = True, horizontal = Some (ascii ''right''),
      cell_horizontal = [(7, ascii ''center'')]\<rparr>"

section \<open>Notions used to state the properties of the tabular export\<close>

text \<open>
  The Unicode scalar values are the code points that are not surrogates. A scalar value
  below \<open>10000\<close> (hexadecimal) is one UTF-16 code unit, any other is a pair of surrogates
  (The Unicode Standard, section 3.9).
\<close>

definition is_scalar_value :: "nat \<Rightarrow> bool" where
  "is_scalar_value cp = (cp < 0xD800 \<or> (0xE000 \<le> cp \<and> cp < 0x110000))"

definition utf16_units :: "nat \<Rightarrow> jsstring" where
  "utf16_units cp =
     (if cp < 0x10000 then [of_nat cp]
      else [of_nat (0xD800 + (cp - 0x10000) div 0x400),
            of_nat (0xDC00 + (cp - 0x10000) mod 0x400)])"

text \<open>
  A text of JavaScript may hold a surrogate that is not part of a pair (a high surrogate
  directly followed by a low one). Encoding starts from the well-formed text, in which
  every such surrogate is replaced by U+FFFD (Web IDL, the conversion to \<open>USVString\<close>); a
  well-formed text is left as it is.
\<close>

definition is_surrogate_unit :: "jschar \<Rightarrow> bool" where
  "is_surrogate_unit c = (0xD800 \<le> unat c \<and> unat c \<le> 0xDFFF)"

definition is_surrogate_pair :: "jschar \<Rightarrow> jschar \<Rightarrow> bool" where
  "is_surrogate_pair c d =
     (0xD800 \<le> unat c \<and> unat c \<le> 0xDBFF \<and> 0xDC00 \<le> unat d \<and> unat d \<le> 0xDFFF)"

fun to_well_formed :: "jsstring \<Rightarrow> jsstring" where
  "to_well_formed [] = []"
| "to_well_formed [c] = [if is_surrogate_unit c then 0xFFFD else c]"
| "to_well_formed (c # d # cs) =
     (if is_surrogate_pair c d then c # d # to_well_formed cs
      else (if is_surrogate_unit c then 0xFFFD else c) # to_well_formed (d # cs))"

text \<open>
  Reading UTF-8 (RFC 3629): a byte below \<open>80\<close> is a code point; a lead byte \<open>110xxxxx\<close>,
  \<open>1110xxxx\<close> or \<open>11110xxx\<close> is followed by one, two or three continuation bytes
  \<open>10xxxxxx\<close>. A sequence longer than its code point needs, a surrogate, a code point above
  \<open>10FFFF\<close>, a continuation byte without a lead byte, and a sequence cut short are not
  UTF-8: the reading is \<open>None\<close>.
\<close>

definition is_continuation :: "8 word \<Rightarrow> bool" where
  "is_continuation b = (0x80 \<le> unat b \<and> unat b < 0xC0)"

fun utf8_decode :: "8 word list \<Rightarrow> nat list option" where
  "utf8_decode [] = Some []"
| "utf8_decode (b # bs) =
     (if unat b < 0x80 then map_option (Cons (unat b)) (utf8_decode bs)
      else if unat b < 0xC0 then None
      else if unat b < 0xE0 then
        (case bs of
           c1 # r \<Rightarrow>
             (let cp = (unat b - 0xC0) * 0x40 + (unat c1 - 0x80)
              in if is_continuation c1 \<and> 0x80 \<le> cp
                 then map_option (Cons cp) (utf8_decode r) else None)
         | _ \<Rightarrow> None)
      else if unat b < 0xF0 then
        (case bs of
           c1 # c2 # r \<Rightarrow>
             (let cp = (unat b - 0xE0) * 0x1000 + (unat c1 - 0x80) * 0x40 + (unat c2 - 0x80)
              in if is_continuation c1 \<and> is_continuation c2 \<and> 0x800 \<le> cp
                    \<and> is_scalar_value cp
                 then map_option (Cons cp) (utf8_decode r) else None)
         | _ \<Rightarrow> None)
      else if unat b < 0xF8 then
        (case bs of
           c1 # c2 # c3 # r \<Rightarrow>
             (let cp = (unat b - 0xF0) * 0x40000 + (unat c1 - 0x80) * 0x1000
                         + (unat c2 - 0x80) * 0x40 + (unat c3 - 0x80)
              in if is_continuation c1 \<and> is_continuation c2 \<and> is_continuation c3
                    \<and> 0x10000 \<le> cp \<and> cp < 0x110000
                 then map_option (Cons cp) (utf8_decode r) else None)
         | _ \<Rightarrow> None)
      else None)"

text \<open>Reading a decimal numeral: one digit or more, the most significant first.\<close>

definition is_decimal_digit :: "jschar \<Rightarrow> bool" where
  "is_decimal_digit c = (0x30 \<le> unat c \<and> unat c \<le> 0x39)"

definition decimal_value :: "jsstring \<Rightarrow> nat option" where
  "decimal_value s =
     (if s \<noteq> [] \<and> list_all is_decimal_digit s
      then Some (foldl (\<lambda>acc c. 10 * acc + (unat c - 0x30)) 0 s) else None)"

text \<open>
  An example for the export: one item whose name is U+7B14 followed by U+1F600 (in UTF-16
  the surrogate pair \<open>D83D DE00\<close>), whose remark holds a comma, and the code points of
  the text that the export has for it with the total 6.
\<close>

definition example_export_item :: "int ProductItem" where
  "example_export_item =
     \<lparr>item_id = ascii ''1'', name = [0x7B14, 0xD83D, 0xDE00], model = ascii ''P1'',
      unit = ascii ''box'', quantity = 2, price = 3, amount = 6, remark = ascii ''a,b''\<rparr>"

definition example_export_code_points :: "nat list" where
  "example_export_code_points =
     [0x5E8F, 0x53F7, 0x2C, 0x5546, 0x54C1, 0x540D, 0x79F0, 0x2C, 0x578B, 0x53F7, 0x2C, 0x5355,
      0x4F4D, 0x2C, 0x6570, 0x91CF, 0x2C, 0x5355, 0x4EF7, 0x2C, 0x91D1, 0x989D, 0x2C, 0x5907,
      0x6CE8, 0xA, 0x31, 0x2C, 0x7B14, 0x1F600, 0x2C, 0x50, 0x31, 0x2C, 0x62, 0x6F,
      0x78, 0x2C, 0x32, 0x2C, 0x33, 0x2C, 0x36, 0x2C, 0x61, 0x2C, 0x62, 0xA,
      0x2C, 0x2C, 0x2C, 0x2C, 0x2C, 0x5408, 0x8BA1, 0x2C, 0x36, 0x2C]"

section \<open>Notions and examples for the properties of document filling\<close>

text \<open>\<open>fields?.find(f => f.isTable)\<close> and the template data handed to the engine.\<close>

definition table_field :: "FieldDefinition list option \<Rightarrow> FieldDefinition option" where
  "table_field fieldDefs = (case fieldDefs of None \<Rightarrow> None | Some fs \<Rightarrow> find isTable fs)"

definition template_data_for ::
  "template_data \<Rightarrow> FieldDefinition option \<Rightarrow> jsstring \<Rightarrow> template_data"
where
  "template_data_for data tableField placeholder =
     (case tableField of None \<Rightarrow> data | Some tf \<Rightarrow> data(fieldName tf \<mapsto> placeholder))"

text \<open>
  The \<open>w:t\<close> elements of a tree whose text content is exactly a given text.
\<close>

definition matching_text_nodes :: "dom \<Rightarrow> jsstring \<Rightarrow> path list" where
  "matching_text_nodes root s =
     filter (\<lambda>p. map_option textContent (node_at root p) = Some s)
       (elementsByTagName (ascii ''w:t'') root)"

text \<open>
  Whether the primary part of a package is there and not empty (\<open>docXmlContent\<close> is
  truthy).
\<close>

definition has_document_text :: "package \<Rightarrow> bool" where
  "has_document_text pkg = (case pkg DOCUMENT_PART of None \<Rightarrow> False | Some xml \<Rightarrow> xml \<noteq> [])"

text \<open>Whether a call was rejected.\<close>

definition rejected :: "('e failure + package) \<times> console_entry list \<Rightarrow> bool" where
  "rejected result = (case fst result of Inl e \<Rightarrow> True | Inr pkg \<Rightarrow> False)"

subsection \<open>The substitution pass of the template engine\<close>

text \<open>
  Modelled from the spec: the template engine (docxtemplater, a library that is not
  under src/) and its substitution pass, as section 4.3 of the specification describes
  it. The delimiters of the engine are the pair \<open>{-\<close>, \<open>-}\<close>. In the main part of the package
  every tag is replaced by the value that the template data binds to its trimmed
  interior; the value is inserted as opaque text and is not scanned again; all other
  parts pass through unchanged. The pass fails when the package has no main part, and
  when a tag is unresolved (no value is bound to its name) or malformed (an opening or
  closing delimiter is left over outside the tags). The name of the main part is an
  argument: the specification speaks of a fixed, well-known name, and the code reads
  \<open>word/document.xml\<close>, while a package says in its content types and relationships which
  part is its main part.
\<close>

function replace_tags :: "(jsstring \<Rightarrow> jsstring) \<Rightarrow> jsstring \<Rightarrow> jsstring" where
  "replace_tags f [] = []"
| "replace_tags f (c # cs) =
     (case match_at (c # cs) of
        Some (g, r) \<Rightarrow> f (trim g) @ replace_tags f r
      | None \<Rightarrow> c # replace_tags f cs)"
  by pat_completeness auto
termination
  by (relation "measure (\<lambda>(f, s). length s)") (auto dest: match_at_length)

text \<open>
  Modelled from the spec: the value bound to a name by the template data. The pass asks
  for it only where a value is bound: a tag without one makes the pass fail.
\<close>

definition value_of :: "template_data \<Rightarrow> jsstring \<Rightarrow> jsstring" where
  "value_of td n = (case td n of None \<Rightarrow> [] | Some v \<Rightarrow> v)"

text \<open>
  Modelled from the spec: the unresolved tags of a text, the names of its tags to which
  the template data binds no value.
\<close>

definition unresolved_tags :: "template_data \<Rightarrow> jsstring \<Rightarrow> jsstring list" where
  "unresolved_tags td s = filter (\<lambda>n. td n = None) (map match_name (matchAll s))"

text \<open>
  Modelled from the spec: a text has a malformed tag when, its tags taken out, an opening
  or a closing delimiter is left over.
\<close>

definition malformed_tags :: "jsstring \<Rightarrow> bool" where
  "malformed_tags s =
     (includes_js (replace_tags (\<lambda>n. [0x20]) s) OPEN_DELIM
      \<or> includes_js (replace_tags (\<lambda>n. [0x20]) s) CLOSE_DELIM)"

text \<open>
  Modelled from the spec: the errors of the engine (section 7 of the specification): an
  unreadable package, a package without its primary part, and the collection of the
  syntax errors of the substitution stage, given by the names of the unresolved tags.
\<close>

datatype render_error =
  UnreadableArchive | MissingDocumentPart | TemplateSyntaxError "jsstring list"

text \<open>
  Modelled from the spec: the substitution pass on a package, for the name of the main
  part.
\<close>

definition Docxtemplater_render ::
  "jsstring \<Rightarrow> package \<Rightarrow> template_data \<Rightarrow> render_error + package"
where
  "Docxtemplater_render main_part pkg td =
     (case pkg main_part of
        None \<Rightarrow> Inl MissingDocumentPart
      | Some s \<Rightarrow>
          if unresolved_tags td s = [] \<and> \<not> malformed_tags s
          then Inr (pkg(main_part \<mapsto> replace_tags (value_of td) s))
          else Inl (TemplateSyntaxError (unresolved_tags td s)))"

text \<open>
  A text in which every opening delimiter starts a complete tag: the scan for tags ends
  where the text ends.
\<close>

function tags_closed :: "jsstring \<Rightarrow> bool" where
  "tags_closed [] = True"
| "tags_closed (c # cs) =
     (case match_at (c # cs) of
        Some (g, r) \<Rightarrow> tags_closed r
      | None \<Rightarrow> (if starts_with (c # cs) OPEN_DELIM then False else tags_closed cs))"
  by pat_completeness auto
termination
  by (relation "measure length") (auto dest: match_at_length)

subsection \<open>A parser and a serialiser for the examples\<close>

text \<open>
  The examples need a parser and a serialiser to stand for those of the browser. The
  parser reads well-formed markup of elements, attributes in double quotes and character
  data with the three references; anything else gives the document of a parser error.
  The serialiser writes a tree back, an element without children as an empty-element
  tag.
\<close>

definition is_xml_space :: "jschar \<Rightarrow> bool" where
  "is_xml_space c = (c = 0x20 \<or> c = 0x09 \<or> c = 0x0A \<or> c = 0x0D)"

definition tag_name :: "jsstring \<Rightarrow> jsstring" where
  "tag_name t = takeWhile (\<lambda>c. \<not> is_xml_space c \<and> c \<noteq> 0x2F) t"

fun parse_attributes :: "nat \<Rightarrow> jsstring \<Rightarrow> (jsstring \<times> jsstring) list" where
  "parse_attributes 0 s = []"
| "parse_attributes (Suc fuel) s =
     (case dropWhile is_xml_space s of
        [] \<Rightarrow> []
      | c # cs \<Rightarrow>
          if c = 0x2F then []
          else
            (let key = takeWhile (\<lambda>x. x \<noteq> 0x3D) (c # cs);
                 after_eq = drop 2 (dropWhile (\<lambda>x. x \<noteq> 0x3D) (c # cs));
                 val = takeWhile (\<lambda>x. x \<noteq> 0x22) after_eq;
                 rest = drop 1 (dropWhile (\<lambda>x. x \<noteq> 0x22) after_eq)
             in (key, xml_unescape val) # parse_attributes fuel rest))"

definition tag_attributes :: "jsstring \<Rightarrow> (jsstring \<times> jsstring) list" where
  "tag_attributes t = parse_attributes (length t) (drop (length (tag_name t)) t)"

type_synonym open_element = "jsstring \<times> (jsstring \<times> jsstring) list \<times> dom list"

fun add_node :: "dom \<Rightarrow> open_element list \<times> dom list \<Rightarrow> open_element list \<times> dom list" where
  "add_node n ([], roots) = ([], n # roots)"
| "add_node n ((nm, attrs, children) # stack, roots) = ((nm, attrs, n # children) # stack, roots)"

fun build_tree :: "xml_token list \<Rightarrow> open_element list \<times> dom list \<Rightarrow> dom option" where
  "build_tree [] ([], roots) = (case roots of [root] \<Rightarrow> Some root | _ \<Rightarrow> None)"
| "build_tree [] (e # stack, roots) = None"
| "build_tree (Chars s # toks) (stack, roots) =
     (if s = [] \<or> stack = [] then build_tree toks (stack, roots)
      else build_tree toks (add_node (TextNode (xml_unescape s)) (stack, roots)))"
| "build_tree (Tag t # toks) (stack, roots) =
     (case t of
        [] \<Rightarrow> None
      | c # cs \<Rightarrow>
          if c = 0x3F \<or> c = 0x21 then build_tree toks (stack, roots)
          else if c = 0x2F then
            (case stack of
               [] \<Rightarrow> None
             | (nm, attrs, children) # stack' \<Rightarrow>
                 if nm = cs
                 then build_tree toks (add_node (Element nm attrs (rev children)) (stack', roots))
                 else None)
          else if last t = 0x2F
          then build_tree toks
                 (add_node (Element (tag_name t) (tag_attributes t) []) (stack, roots))
          else build_tree toks ((tag_name t, tag_attributes t, []) # stack, roots))"

definition xml_parse :: "jsstring \<Rightarrow> dom" where
  "xml_parse s =
     (case build_tree (xml_tokens s) ([], []) of
        Some root \<Rightarrow> root
      | None \<Rightarrow> Element (ascii ''parsererror'') [] [])"

definition attribute_text :: "jsstring \<times> jsstring \<Rightarrow> jsstring" where
  \<open>attribute_text a =
     ascii '' '' @ fst a @ ascii ''="'' @ replace_all 0x22 (ascii ''&quot;'') (safeContent (snd a))
       @ ascii ''"''\<close>

fun xml_serialize :: "dom \<Rightarrow> jsstring" where
  "xml_serialize (Element nm attrs children) =
     (if children = []
      then ascii ''<'' @ nm @ concat (map attribute_text attrs) @ ascii ''/>''
      else ascii ''<'' @ nm @ concat (map attribute_text attrs) @ ascii ''>''
           @ concat (map xml_serialize children) @ ascii ''</'' @ nm @ ascii ''>'')"
| "xml_serialize (TextNode s) = safeContent s"
| "xml_serialize OtherNode = []"

subsection \<open>Examples\<close>

text \<open>
  The environment of the examples: the engine as the specification describes it, with
  the main part under the name the code reads, the parser and the serialiser above, and
  42 as the random number.
\<close>

definition example_env :: "render_error environment" where
  "example_env =
     \<lparr>render = Docxtemplater_render DOCUMENT_PART, parseFromString = xml_parse,
      serializeToString = xml_serialize, random_number = 42\<rparr>"

text \<open>
  The markup around the text of the only paragraph of the example templates, a template
  whose paragraph holds the tag of the table field, and one whose paragraph holds no tag.
\<close>

definition example_open :: jsstring where
  \<open>example_open =
     ascii ''<w:document xmlns:w="http://schemas.openxmlformats.org/wordprocessingml/2006/main"><w:body><w:p><w:r><w:t>''\<close>

definition example_close :: jsstring where
  "example_close = ascii ''</w:t></w:r></w:p></w:body></w:document>''"

definition example_table_template :: jsstring where
  "example_table_template = example_open @ placeholder_tag TABLE_KEYWORD @ example_close"

definition example_plain_template :: jsstring where
  "example_plain_template = example_open @ ascii ''Hello'' @ example_close"

text \<open>
  A package of three parts: the content types, the relationships of the package, which
  name the main part, and the main part itself.
\<close>

definition CONTENT_TYPES_PART :: jsstring where
  "CONTENT_TYPES_PART = ascii ''[Content_Types].xml''"

definition RELS_PART :: jsstring where
  "RELS_PART = ascii ''_rels/.rels''"

definition example_content_types :: "jsstring \<Rightarrow> jsstring" where
  \<open>example_content_types main_part =
     ascii ''<?xml version="1.0" encoding="UTF-8" standalone="yes"?><Types xmlns="http://schemas.openxmlformats.org/package/2006/content-types"><Default Extension="rels" ContentType="application/vnd.openxmlformats-package.relationships+xml"/><Default Extension="xml" ContentType="application/xml"/><Override PartName="/''
     @ main_part
     @ ascii ''" ContentType="application/vnd.openxmlformats-officedocument.wordprocessingml.document.main+xml"/></Types>''\<close>

definition example_rels :: "jsstring \<Rightarrow> jsstring" where
  \<open>example_rels main_part =
     ascii ''<?xml version="1.0" encoding="UTF-8" standalone="yes"?><Relationships xmlns="http://schemas.openxmlformats.org/package/2006/relationships"><Relationship Id="rId1" Type="http://schemas.openxmlformats.org/officeDocument/2006/relationships/officeDocument" Target="''
     @ main_part @ ascii ''"/></Relationships>''\<close>

definition example_package :: "jsstring \<Rightarrow> jsstring \<Rightarrow> package" where
  "example_package main_part s =
     [CONTENT_TYPES_PART \<mapsto> example_content_types main_part,
      RELS_PART \<mapsto> example_rels main_part,
      main_part \<mapsto> s]"

text \<open>A file that holds such a package with the main part \<open>word/document.xml\<close>.\<close>

definition example_file :: "jsstring \<Rightarrow> render_error file_content" where
  "example_file s = \<lparr>byteLength = 2048, archive = Inr (example_package DOCUMENT_PART s)\<rparr>"

definition example_table_field :: FieldDefinition where
  "example_table_field =
     \<lparr>originalTag = placeholder_tag TABLE_KEYWORD, fieldName = TABLE_KEYWORD, isTable = True\<rparr>"

definition example_item :: "int ProductItem" where
  "example_item =
     \<lparr>item_id = ascii ''1'', name = ascii ''pen'', model = ascii ''P1'', unit = ascii ''box'',
      quantity = 1, price = 1, amount = 1, remark = []\<rparr>"

text \<open>
  A package whose main part has another name, \<open>word/document2.xml\<close>, as some producers
  write it, and an environment whose engine takes that part as the main part.
\<close>

definition SECOND_DOCUMENT_PART :: jsstring where
  "SECOND_DOCUMENT_PART = ascii ''word/document2.xml''"

definition example_file_renamed :: "render_error file_content" where
  "example_file_renamed =
     \<lparr>byteLength = 2048,
      archive = Inr (example_package SECOND_DOCUMENT_PART example_plain_template)\<rparr>"

definition example_env_renamed :: "render_error environment" where
  "example_env_renamed =
     \<lparr>render = Docxtemplater_render SECOND_DOCUMENT_PART, parseFromString = xml_parse,
      serializeToString = xml_serialize, random_number = 42\<rparr>"

section \<open>Properties of the placeholder scan\<close>

lemma foldl_scan_step:
  "foldl scan_step (seen, acc) ms =
     (seen \<union> set (map match_name ms), acc @ map field_of_match (first_matches seen ms))"
  by (induction ms arbitrary: seen acc)
     (auto simp: scan_step_def Let_def field_of_match_def match_name_def)

lemma remdups_snoc:
  "remdups (xs @ [k]) = filter (\<lambda>n. n \<noteq> k) (remdups xs) @ [k]"
  by (induction xs) auto

lemma first_occurrences_Nil: "first_occurrences [] = []"
  by (simp add: first_occurrences_def)

lemma first_occurrences_Cons:
  "first_occurrences (k # ns) = k # filter (\<lambda>n. n \<noteq> k) (first_occurrences ns)"
  by (simp add: first_occurrences_def remdups_snoc rev_filter)

lemma first_matches_names:
  "map match_name (first_matches seen ms) =
     filter (\<lambda>n. n \<notin> seen) (first_occurrences (map match_name ms))"
proof (induction ms arbitrary: seen)
  case Nil
  then show ?case by (simp add: first_occurrences_Nil)
next
  case (Cons m ms)
  let ?k = "match_name m"
  let ?F = "first_occurrences (map match_name ms)"
  show ?case
  proof (cases "?k \<in> seen")
    case True
    have "filter (\<lambda>n. n \<notin> seen) (filter (\<lambda>n. n \<noteq> ?k) ?F) = filter (\<lambda>n. n \<notin> seen) ?F"
      using True by (auto intro: filter_cong)
    with True Cons.IH [of seen] show ?thesis
      by (simp add: first_occurrences_Cons)
  next
    case False
    have "filter (\<lambda>n. n \<notin> insert ?k seen) ?F
        = filter (\<lambda>n. n \<notin> seen) (filter (\<lambda>n. n \<noteq> ?k) ?F)"
      by (auto intro: filter_cong)
    with False Cons.IH [of "insert ?k seen"] show ?thesis
      by (simp add: first_occurrences_Cons)
  qed
qed

lemma insert_sorted_compareFields:
  "insert_sorted compareFields x (filter (\<lambda>f. \<not> isTable f) fs @ filter isTable fs) =
     filter (\<lambda>f. \<not> isTable f) (x # fs) @ filter isTable (x # fs)"
proof (induction fs)
  case Nil
  then show ?case by simp
next
  case (Cons y ys)
  show ?case
  proof (cases "isTable x")
    case True
    have "insert_sorted compareFields x (filter (\<lambda>f. \<not> isTable f) zs @ filter isTable ws)
        = filter (\<lambda>f. \<not> isTable f) zs @ x # filter isTable ws" for zs ws
      using True by (induction zs) (auto simp: compareFields_def, (cases "filter isTable ws"; auto simp: compareFields_def dest: filter_eq_ConsD)+)
    from this [of "y # ys" "y # ys"] True show ?thesis by simp
  next
    case False
    have "insert_sorted compareFields x zs = x # zs" for zs
      using False by (cases zs) (auto simp: compareFields_def)
    with False show ?thesis by simp
  qed
qed

lemma js_sort_compareFields:
  "js_sort compareFields fs = filter (\<lambda>f. \<not> isTable f) fs @ filter isTable fs"
  by (induction fs) (simp_all add: insert_sorted_compareFields del: filter.simps)

lemma foldl_scan_cell:
  "foldl scan_cell st row =
     foldl scan_step st (concat (map (\<lambda>c. matchAll (cell_scan_text c))
       (filter (\<lambda>c. cell_type c = VString \<or> cell_type c = VRichText) row)))"
  by (induction row arbitrary: st) (simp_all add: scan_cell_def)

lemma foldl_scan_sheet:
  "foldl (\<lambda>st row. foldl scan_cell st row) st sheet =
     foldl scan_step st (concat (map (\<lambda>c. matchAll (cell_scan_text c))
       (filter (\<lambda>c. cell_type c = VString \<or> cell_type c = VRichText) (concat sheet))))"
  by (induction sheet arbitrary: st) (simp_all add: foldl_scan_cell)

lemma foldl_scan_workbook:
  "foldl (\<lambda>st sheet. foldl (\<lambda>st row. foldl scan_cell st row) st sheet) st wb =
     foldl scan_step st (excel_matches wb)"
  unfolding excel_matches_def
  by (induction wb arbitrary: st) (simp_all add: foldl_scan_sheet)

lemma extractFieldsFromDoc_scan: "extractFieldsFromDoc text = scan_result (matchAll text)"
  by (simp add: extractFieldsFromDoc_def scan_result_def)

lemma extractFieldsFromExcel_scan: "extractFieldsFromExcel wb = scan_result (excel_matches wb)"
  by (simp add: extractFieldsFromExcel_def scan_result_def foldl_scan_workbook)

lemma scan_result_eq:
  "scan_result ms =
     filter (\<lambda>f. \<not> isTable f) (map field_of_match (first_matches {} ms)) @
     filter isTable (map field_of_match (first_matches {} ms))"
  by (simp add: scan_result_def foldl_scan_step js_sort_compareFields)

lemma fieldName_field_of_match: "fieldName (field_of_match m) = match_name m"
  by (simp add: field_of_match_def match_name_def)

lemma isTable_field_of_match:
  "isTable (field_of_match m) = includes_js (match_name m) TABLE_KEYWORD"
  by (simp add: field_of_match_def match_name_def)

lemma scan_result_names:
  "map fieldName (scan_result ms) =
     filter (\<lambda>n. \<not> includes_js n TABLE_KEYWORD) (first_occurrences (map match_name ms)) @
     filter (\<lambda>n. includes_js n TABLE_KEYWORD) (first_occurrences (map match_name ms))"
proof -
  have "first_occurrences (map match_name ms) = map match_name (first_matches {} ms)"
    by (simp add: first_matches_names)
  then show ?thesis
    by (simp add: scan_result_eq filter_map comp_def fieldName_field_of_match
        isTable_field_of_match)
qed

lemma scan_result_flags:
  "map isTable (scan_result ms) =
     map (\<lambda>f. includes_js (fieldName f) TABLE_KEYWORD) (scan_result ms)"
  by (simp add: scan_result_eq filter_map comp_def fieldName_field_of_match
      isTable_field_of_match)

lemma CLOSE_DELIM_chars: "CLOSE_DELIM = [0x2D, 0x7D]"
  by (simp add: CLOSE_DELIM_def ascii_def)

lemma OPEN_DELIM_chars: "OPEN_DELIM = [0x7B, 0x2D]"
  by (simp add: OPEN_DELIM_def ascii_def)

lemma lazy_body_shortest:
  "\<not> includes_js x CLOSE_DELIM \<Longrightarrow> lazy_body (x @ CLOSE_DELIM @ rest) = Some (x, rest)"
proof (induction x)
  case Nil
  then show ?case by (simp add: CLOSE_DELIM_chars)
next
  case (Cons c x)
  then have "\<not> starts_with (c # x @ CLOSE_DELIM @ rest) CLOSE_DELIM"
    by (cases x) (auto simp: CLOSE_DELIM_chars)
  with Cons show ?case by simp
qed

lemma match_at_tag:
  assumes "a \<noteq> []" "\<not> includes_js (tl a) CLOSE_DELIM"
  shows "match_at (placeholder_tag a @ rest) = Some (a, rest)"
proof -
  from assms(1) obtain c cs where a: "a = c # cs" by (cases a) auto
  with assms(2) have "lazy_body (cs @ CLOSE_DELIM @ rest) = Some (cs, rest)"
    by (simp add: lazy_body_shortest)
  then show ?thesis
    by (simp add: match_at_def placeholder_tag_def a OPEN_DELIM_chars)
qed

lemma matchAll_tag:
  assumes "a \<noteq> []" "\<not> includes_js (tl a) CLOSE_DELIM"
  shows "matchAll (placeholder_tag a @ rest) =
           \<lparr>whole = placeholder_tag a, group1 = a\<rparr> # matchAll rest"
proof -
  have e: "placeholder_tag a @ rest = 0x7B # (0x2D # a @ CLOSE_DELIM @ rest)"
    by (simp add: placeholder_tag_def OPEN_DELIM_chars)
  have m: "match_at (0x7B # (0x2D # a @ CLOSE_DELIM @ rest)) = Some (a, rest)"
    using match_at_tag [OF assms, of rest] by (simp only: e)
  have "matchAll (0x7B # (0x2D # a @ CLOSE_DELIM @ rest)) =
      \<lparr>whole = OPEN_DELIM @ a @ CLOSE_DELIM, group1 = a\<rparr> # matchAll rest"
    by (simp only: matchAll.simps m option.case prod.case)
  then show ?thesis
    by (simp only: e) (simp add: placeholder_tag_def)
qed

lemma matchAll_plain:
  assumes "\<not> includes_js p OPEN_DELIM" "s = [] \<or> starts_with s OPEN_DELIM"
  shows "matchAll (p @ s) = matchAll s"
  using assms
proof (induction p)
  case Nil
  then show ?case by simp
next
  case (Cons c p)
  from Cons.prems have "\<not> starts_with (c # p @ s) OPEN_DELIM"
    by (cases p; cases s) (auto simp: OPEN_DELIM_chars)
  then have "match_at (c # p @ s) = None"
    by (simp add: match_at_def)
  with Cons show ?case by simp
qed

lemma starts_with_tag: "starts_with (placeholder_tag a @ rest) OPEN_DELIM"
  by (simp add: placeholder_tag_def OPEN_DELIM_chars)

lemma matchAll_two_tags:
  assumes "\<not> includes_js p0 OPEN_DELIM" "\<not> includes_js p1 OPEN_DELIM"
    "\<not> includes_js p2 OPEN_DELIM"
    "a \<noteq> []" "\<not> includes_js (tl a) CLOSE_DELIM" "b \<noteq> []" "\<not> includes_js (tl b) CLOSE_DELIM"
  shows "matchAll (p0 @ placeholder_tag a @ p1 @ placeholder_tag b @ p2) =
    [\<lparr>whole = placeholder_tag a, group1 = a\<rparr>, \<lparr>whole = placeholder_tag b, group1 = b\<rparr>]"
proof -
  have "matchAll (p2 @ []) = matchAll []"
    using assms(3) by (intro matchAll_plain) auto
  then have 1: "matchAll p2 = []" by simp
  have 2: "matchAll (placeholder_tag b @ p2) = [\<lparr>whole = placeholder_tag b, group1 = b\<rparr>]"
    using matchAll_tag [OF assms(6,7), of p2] 1 by simp
  have 3: "matchAll (p1 @ placeholder_tag b @ p2) = matchAll (placeholder_tag b @ p2)"
    using assms(2) by (intro matchAll_plain) (auto simp: starts_with_tag)
  have 4: "matchAll (p0 @ placeholder_tag a @ p1 @ placeholder_tag b @ p2)
      = matchAll (placeholder_tag a @ p1 @ placeholder_tag b @ p2)"
    using assms(1) by (intro matchAll_plain) (auto simp: starts_with_tag)
  show ?thesis
    using matchAll_tag [OF assms(4,5), of "p1 @ placeholder_tag b @ p2"] 2 3 4 by simp
qed

lemma starts_with_append: "starts_with (k @ r) k"
  by (induction k) auto

lemma includes_js_starts: "starts_with s k \<Longrightarrow> includes_js s k"
  by (cases s) auto

lemma trim_keyword: "includes_js (trim (TABLE_KEYWORD @ b)) TABLE_KEYWORD"
proof -
  have nw: "\<forall>c \<in> set TABLE_KEYWORD. \<not> is_js_whitespace c"
    by (simp add: TABLE_KEYWORD_def is_js_whitespace_def)
  have hd: "dropWhile is_js_whitespace (TABLE_KEYWORD @ b) = TABLE_KEYWORD @ b"
    by (simp add: TABLE_KEYWORD_def is_js_whitespace_def)
  have "\<exists>r. rev (dropWhile is_js_whitespace (rev b @ rev TABLE_KEYWORD)) = TABLE_KEYWORD @ r"
  proof (cases "\<forall>c \<in> set b. is_js_whitespace c")
    case True
    have "dropWhile is_js_whitespace (rev b @ rev TABLE_KEYWORD)
        = dropWhile is_js_whitespace (rev TABLE_KEYWORD)"
      by (rule dropWhile_append2) (use True in auto)
    also have "\<dots> = rev TABLE_KEYWORD"
      by (simp add: TABLE_KEYWORD_def is_js_whitespace_def)
    finally show ?thesis by simp
  next
    case False
    then have "dropWhile is_js_whitespace (rev b @ rev TABLE_KEYWORD)
        = dropWhile is_js_whitespace (rev b) @ rev TABLE_KEYWORD"
      by (auto simp: dropWhile_append1)
    then show ?thesis by simp
  qed
  then obtain r where "trim (TABLE_KEYWORD @ b) = TABLE_KEYWORD @ r"
    by (auto simp: trim_def hd)
  then show ?thesis
    by (simp add: includes_js_starts starts_with_append)
qed

lemma filter_first_matches:
  "filter (\<lambda>m. match_name m = n) (first_matches seen ms) =
     (if n \<in> seen then []
      else (case find (\<lambda>m. match_name m = n) ms of None \<Rightarrow> [] | Some m0 \<Rightarrow> [m0]))"
proof (induction ms arbitrary: seen)
  case Nil
  then show ?case by simp
next
  case (Cons m ms)
  show ?case
    by (cases "match_name m \<in> seen") (auto simp: Cons.IH split: option.splits)
qed

lemma filter_swap: "filter P (filter Q xs) = filter Q (filter P xs)"
  by (induction xs) auto

lemma scan_result_unique:
  assumes "find (\<lambda>m. match_name m = n) ms = Some m0"
  shows "filter (\<lambda>f. fieldName f = n) (scan_result ms) =
    [\<lparr>originalTag = whole m0, fieldName = n, isTable = includes_js n TABLE_KEYWORD\<rparr>]"
proof -
  let ?F = "map field_of_match (first_matches {} ms)"
  from assms have n: "match_name m0 = n"
    by (auto simp: find_Some_iff)
  have "filter (\<lambda>f. fieldName f = n) ?F =
      map field_of_match (filter (\<lambda>m. match_name m = n) (first_matches {} ms))"
    by (simp add: filter_map comp_def fieldName_field_of_match)
  also have "\<dots> = [field_of_match m0]"
    by (simp add: filter_first_matches assms)
  finally have one: "filter (\<lambda>f. fieldName f = n) ?F = [field_of_match m0]" .
  have "filter (\<lambda>f. fieldName f = n) (filter Q ?F) = filter Q [field_of_match m0]" for Q
    using one filter_swap [of "\<lambda>f. fieldName f = n" Q ?F] by simp
  then have "filter (\<lambda>f. fieldName f = n) (scan_result ms) = [field_of_match m0]"
    by (simp add: scan_result_eq)
  moreover have "field_of_match m0 =
      \<lparr>originalTag = whole m0, fieldName = n, isTable = includes_js n TABLE_KEYWORD\<rparr>"
    using n by (simp add: field_of_match_def match_name_def)
  ultimately show ?thesis by simp
qed

text \<open>
  Claim C1, as the code has it. For every raw text, and for every workbook, the names of
  the returned field definitions are the scalar names (those not containing the table
  keyword) followed by the table names, each class in the order of first occurrence of
  the trimmed names among the matches, and every definition is flagged as a table exactly
  when its name contains the keyword. The number of definitions is the number of
  distinct trimmed names, not two: a text made of plain text without an opening
  delimiter, a tag \<open>{-a-}\<close> with a scalar name and a tag \<open>{-<keyword>b-}\<close>, in either
  order, yields exactly the scalar definition followed by the table definition.
\<close>

theorem scan_orders_scalars_before_tables:
  "map fieldName (extractFieldsFromDoc text) =
     filter (\<lambda>n. \<not> includes_js n TABLE_KEYWORD)
       (first_occurrences (map match_name (matchAll text))) @
     filter (\<lambda>n. includes_js n TABLE_KEYWORD)
       (first_occurrences (map match_name (matchAll text)))
   \<and> map isTable (extractFieldsFromDoc text) =
       map (\<lambda>f. includes_js (fieldName f) TABLE_KEYWORD) (extractFieldsFromDoc text)
   \<and> map fieldName (extractFieldsFromExcel wb) =
       filter (\<lambda>n. \<not> includes_js n TABLE_KEYWORD)
         (first_occurrences (map match_name (excel_matches wb))) @
       filter (\<lambda>n. includes_js n TABLE_KEYWORD)
         (first_occurrences (map match_name (excel_matches wb)))
   \<and> map isTable (extractFieldsFromExcel wb) =
       map (\<lambda>f. includes_js (fieldName f) TABLE_KEYWORD) (extractFieldsFromExcel wb)
   \<and> (\<not> includes_js p0 OPEN_DELIM \<and> \<not> includes_js p1 OPEN_DELIM \<and>
      \<not> includes_js p2 OPEN_DELIM \<and> a \<noteq> [] \<and> \<not> includes_js (tl a) CLOSE_DELIM \<and>
      \<not> includes_js (tl (TABLE_KEYWORD @ b)) CLOSE_DELIM \<and>
      \<not> includes_js (trim a) TABLE_KEYWORD \<longrightarrow>
      extractFieldsFromDoc
        (p0 @ placeholder_tag a @ p1 @ placeholder_tag (TABLE_KEYWORD @ b) @ p2) =
        [\<lparr>originalTag = placeholder_tag a, fieldName = trim a, isTable = False\<rparr>,
         \<lparr>originalTag = placeholder_tag (TABLE_KEYWORD @ b),
          fieldName = trim (TABLE_KEYWORD @ b), isTable = True\<rparr>] \<and>
      extractFieldsFromDoc
        (p0 @ placeholder_tag (TABLE_KEYWORD @ b) @ p1 @ placeholder_tag a @ p2) =
        [\<lparr>originalTag = placeholder_tag a, fieldName = trim a, isTable = False\<rparr>,
         \<lparr>originalTag = placeholder_tag (TABLE_KEYWORD @ b),
          fieldName = trim (TABLE_KEYWORD @ b), isTable = True\<rparr>])"
proof -
  have two: "extractFieldsFromDoc
        (p0 @ placeholder_tag a @ p1 @ placeholder_tag (TABLE_KEYWORD @ b) @ p2) =
        [\<lparr>originalTag = placeholder_tag a, fieldName = trim a, isTable = False\<rparr>,
         \<lparr>originalTag = placeholder_tag (TABLE_KEYWORD @ b),
          fieldName = trim (TABLE_KEYWORD @ b), isTable = True\<rparr>] \<and>
      extractFieldsFromDoc
        (p0 @ placeholder_tag (TABLE_KEYWORD @ b) @ p1 @ placeholder_tag a @ p2) =
        [\<lparr>originalTag = placeholder_tag a, fieldName = trim a, isTable = False\<rparr>,
         \<lparr>originalTag = placeholder_tag (TABLE_KEYWORD @ b),
          fieldName = trim (TABLE_KEYWORD @ b), isTable = True\<rparr>]"
    if h: "\<not> includes_js p0 OPEN_DELIM" "\<not> includes_js p1 OPEN_DELIM"
      "\<not> includes_js p2 OPEN_DELIM" "a \<noteq> []" "\<not> includes_js (tl a) CLOSE_DELIM"
      "\<not> includes_js (tl (TABLE_KEYWORD @ b)) CLOSE_DELIM"
      "\<not> includes_js (trim a) TABLE_KEYWORD"
  proof -
    have k: "TABLE_KEYWORD @ b \<noteq> []"
      by (simp add: TABLE_KEYWORD_def)
    from h(7) trim_keyword [of b] have ne: "trim a \<noteq> trim (TABLE_KEYWORD @ b)"
      by auto
    let ?ma = "\<lparr>whole = placeholder_tag a, group1 = a\<rparr>"
    let ?mb = "\<lparr>whole = placeholder_tag (TABLE_KEYWORD @ b), group1 = TABLE_KEYWORD @ b\<rparr>"
    have na: "match_name ?ma = trim a" and nb: "match_name ?mb = trim (TABLE_KEYWORD @ b)"
      by (simp_all add: match_name_def)
    have fa: "field_of_match ?ma =
        \<lparr>originalTag = placeholder_tag a, fieldName = trim a, isTable = False\<rparr>"
      using h(7) by (simp add: field_of_match_def)
    have fb: "field_of_match ?mb = \<lparr>originalTag = placeholder_tag (TABLE_KEYWORD @ b),
          fieldName = trim (TABLE_KEYWORD @ b), isTable = True\<rparr>"
      using trim_keyword [of b] by (simp add: field_of_match_def)
    have 1: "first_matches {} [?ma, ?mb] = [?ma, ?mb]"
      using ne by (simp add: na nb)
    have 2: "first_matches {} [?mb, ?ma] = [?mb, ?ma]"
      using ne by (simp add: na nb)
    have r1: "scan_result [?ma, ?mb] = [field_of_match ?ma, field_of_match ?mb]"
      unfolding scan_result_eq 1 by (simp add: fa fb)
    have r2: "scan_result [?mb, ?ma] = [field_of_match ?ma, field_of_match ?mb]"
      unfolding scan_result_eq 2 by (simp add: fa fb)
    show ?thesis
      unfolding extractFieldsFromDoc_scan
        matchAll_two_tags [OF h(1,2,3,4,5) k h(6)]
        matchAll_two_tags [OF h(1,2,3) k h(6) h(4,5)] r1 r2 fa fb
      by simp
  qed
  have names_doc: "map fieldName (extractFieldsFromDoc text) =
     filter (\<lambda>n. \<not> includes_js n TABLE_KEYWORD)
       (first_occurrences (map match_name (matchAll text))) @
     filter (\<lambda>n. includes_js n TABLE_KEYWORD)
       (first_occurrences (map match_name (matchAll text)))"
    by (simp only: extractFieldsFromDoc_scan scan_result_names)
  have flags_doc: "map isTable (extractFieldsFromDoc text) =
       map (\<lambda>f. includes_js (fieldName f) TABLE_KEYWORD) (extractFieldsFromDoc text)"
    by (simp only: extractFieldsFromDoc_scan scan_result_flags)
  have names_xl: "map fieldName (extractFieldsFromExcel wb) =
       filter (\<lambda>n. \<not> includes_js n TABLE_KEYWORD)
         (first_occurrences (map match_name (excel_matches wb))) @
       filter (\<lambda>n. includes_js n TABLE_KEYWORD)
         (first_occurrences (map match_name (excel_matches wb)))"
    by (simp only: extractFieldsFromExcel_scan scan_result_names)
  have flags_xl: "map isTable (extractFieldsFromExcel wb) =
       map (\<lambda>f. includes_js (fieldName f) TABLE_KEYWORD) (extractFieldsFromExcel wb)"
    by (simp only: extractFieldsFromExcel_scan scan_result_flags)
  show ?thesis
    by (intro conjI impI names_doc flags_doc names_xl flags_xl; elim conjE; rule two [THEN conjunct1] two [THEN conjunct2]; assumption)
qed

text \<open>
  The scenario of the specification: the text \<open>U+7532 U+65B9 U+FF1A {-Party A-} U+FF0C
  {-<keyword>-}\<close> yields the scalar field \<open>Party A\<close> and then the table field.
\<close>

theorem scan_orders_scalars_before_tables_witness:
  "(\<not> includes_js [0x7532, 0x65B9, 0xFF1A] OPEN_DELIM \<and> \<not> includes_js [0xFF0C] OPEN_DELIM \<and>
    \<not> includes_js [] OPEN_DELIM \<and> ascii ''Party A'' \<noteq> [] \<and>
    \<not> includes_js (tl (ascii ''Party A'')) CLOSE_DELIM \<and>
    \<not> includes_js (tl (TABLE_KEYWORD @ [])) CLOSE_DELIM \<and>
    \<not> includes_js (trim (ascii ''Party A'')) TABLE_KEYWORD)
   \<and> extractFieldsFromDoc
        ([0x7532, 0x65B9, 0xFF1A] @ placeholder_tag (ascii ''Party A'') @ [0xFF0C] @
         placeholder_tag (TABLE_KEYWORD @ []) @ []) =
        [\<lparr>originalTag = placeholder_tag (ascii ''Party A''), fieldName = ascii ''Party A'',
          isTable = False\<rparr>,
         \<lparr>originalTag = placeholder_tag TABLE_KEYWORD, fieldName = TABLE_KEYWORD,
          isTable = True\<rparr>]"
proof -
  have h: "\<not> includes_js [0x7532, 0x65B9, 0xFF1A] OPEN_DELIM \<and>
    \<not> includes_js [0xFF0C] OPEN_DELIM \<and>
    \<not> includes_js [] OPEN_DELIM \<and> ascii ''Party A'' \<noteq> [] \<and>
    \<not> includes_js (tl (ascii ''Party A'')) CLOSE_DELIM \<and>
    \<not> includes_js (tl (TABLE_KEYWORD @ [])) CLOSE_DELIM \<and>
    \<not> includes_js (trim (ascii ''Party A'')) TABLE_KEYWORD"
    by code_simp
  have t: "trim (ascii ''Party A'') = ascii ''Party A''" "trim TABLE_KEYWORD = TABLE_KEYWORD"
    by code_simp+
  from scan_orders_scalars_before_tables
    [where ?p0.0 = "[0x7532, 0x65B9, 0xFF1A]" and a = "ascii ''Party A''"
       and ?p1.0 = "[0xFF0C]" and b = "[]" and ?p2.0 = "[]"] h
  have "extractFieldsFromDoc
        ([0x7532, 0x65B9, 0xFF1A] @ placeholder_tag (ascii ''Party A'') @ [0xFF0C] @
         placeholder_tag (TABLE_KEYWORD @ []) @ []) =
        [\<lparr>originalTag = placeholder_tag (ascii ''Party A''),
          fieldName = trim (ascii ''Party A''), isTable = False\<rparr>,
         \<lparr>originalTag = placeholder_tag (TABLE_KEYWORD @ []),
          fieldName = trim (TABLE_KEYWORD @ []), isTable = True\<rparr>]"
    by blast
  then show ?thesis
    using h by (simp only: t append_Nil2 simp_thms)
qed

text \<open>
  Claim C1 as stated fails on a text that holds a third tag: the text
  \<open>{-A-}{-C-}{-<keyword>B-}\<close> contains both \<open>{-A-}\<close> and \<open>{-<keyword>B-}\<close>, and the
  scan returns three field definitions.
\<close>

theorem scan_third_tag_counterexample:
  "includes_js (ascii ''{-A-}{-C-}{-'' @ TABLE_KEYWORD @ ascii ''B-}'')
     (placeholder_tag (ascii ''A''))
   \<and> includes_js (ascii ''{-A-}{-C-}{-'' @ TABLE_KEYWORD @ ascii ''B-}'')
     (placeholder_tag (TABLE_KEYWORD @ ascii ''B''))
   \<and> length (extractFieldsFromDoc (ascii ''{-A-}{-C-}{-'' @ TABLE_KEYWORD @ ascii ''B-}'')) = 3"
  by code_simp

text \<open>
  Claim C7. Deduplication is keyed by the trimmed interior: the returned names are
  distinct, and for every name \<open>n\<close> that some match has, exactly one field definition
  carries it, whose \<open>originalTag\<close> is the whole tag text of the first match with that
  trimmed interior.
\<close>

theorem scan_keeps_first_occurrence:
  "(find (\<lambda>m. match_name m = n) (matchAll text) = Some m0 \<longrightarrow>
      filter (\<lambda>f. fieldName f = n) (extractFieldsFromDoc text) =
        [\<lparr>originalTag = whole m0, fieldName = n, isTable = includes_js n TABLE_KEYWORD\<rparr>])
   \<and> distinct (map fieldName (extractFieldsFromDoc text))"
proof -
  have "distinct (first_occurrences ns)" for ns :: "jsstring list"
    by (simp add: first_occurrences_def)
  then have "distinct (map fieldName (scan_result ms))" for ms
    by (auto simp: scan_result_names)
  then show ?thesis
    by (simp add: extractFieldsFromDoc_scan scan_result_unique)
qed

text \<open>
  The same tag twice, once with blanks around its interior: one field definition, with
  the tag text of the first occurrence.
\<close>

theorem scan_keeps_first_occurrence_witness:
  "find (\<lambda>m. match_name m = ascii ''A'') (matchAll (ascii ''{- A -}{-A-}'')) =
     Some \<lparr>whole = ascii ''{- A -}'', group1 = ascii '' A ''\<rparr>
   \<and> filter (\<lambda>f. fieldName f = ascii ''A'') (extractFieldsFromDoc (ascii ''{- A -}{-A-}'')) =
       [\<lparr>originalTag = ascii ''{- A -}'', fieldName = ascii ''A'', isTable = False\<rparr>]
   \<and> extractFieldsFromDoc (ascii ''{- A -}{-A-}'') =
       [\<lparr>originalTag = ascii ''{- A -}'', fieldName = ascii ''A'', isTable = False\<rparr>]"
proof -
  have h: "find (\<lambda>m. match_name m = ascii ''A'') (matchAll (ascii ''{- A -}{-A-}'')) =
     Some \<lparr>whole = ascii ''{- A -}'', group1 = ascii '' A ''\<rparr>"
    by code_simp
  have k: "includes_js (ascii ''A'') TABLE_KEYWORD = False"
    by code_simp
  have e: "extractFieldsFromDoc (ascii ''{- A -}{-A-}'') =
       [\<lparr>originalTag = ascii ''{- A -}'', fieldName = ascii ''A'', isTable = False\<rparr>]"
    by code_simp
  from scan_keeps_first_occurrence
    [of "ascii ''A''" "ascii ''{- A -}{-A-}''"
        "\<lparr>whole = ascii ''{- A -}'', group1 = ascii '' A ''\<rparr>"] h
  have "filter (\<lambda>f. fieldName f = ascii ''A'') (extractFieldsFromDoc (ascii ''{- A -}{-A-}'')) =
      [\<lparr>originalTag = whole \<lparr>whole = ascii ''{- A -}'', group1 = ascii '' A ''\<rparr>,
        fieldName = ascii ''A'', isTable = includes_js (ascii ''A'') TABLE_KEYWORD\<rparr>]"
    by blast
  then show ?thesis
    using h e by (simp add: k)
qed

section \<open>Properties of the table fragment\<close>

lemma replace_all_append: "replace_all c r (a @ b) = replace_all c r a @ replace_all c r b"
  by (simp add: replace_all_def)

lemma replace_all_Cons: "replace_all c r (x # s) = (if x = c then r else [x]) @ replace_all c r s"
  by (simp add: replace_all_def)

lemma replace_all_Nil: "replace_all c r [] = []"
  by (simp add: replace_all_def)

lemma safeContent_Nil: "safeContent [] = []"
  by (simp add: safeContent_def replace_all_Nil)

lemma safeContent_Cons: "safeContent (c # s) = escape_char c @ safeContent s"
  by (simp add: safeContent_def escape_char_def replace_all_Cons replace_all_append
      replace_all_Nil ascii_def)


lemma xml_unescape_escape_char:
  "xml_unescape (escape_char c @ rest) = c # xml_unescape rest"
  by (simp add: escape_char_def ascii_def)

lemma xml_unescape_safeContent: "xml_unescape (safeContent s) = s"
  by (induction s) (simp_all add: safeContent_Nil safeContent_Cons xml_unescape_escape_char)

lemma safeContent_no_markup: "0x3C \<notin> set (safeContent s) \<and> 0x3E \<notin> set (safeContent s)"
  by (induction s) (auto simp: safeContent_Nil safeContent_Cons escape_char_def ascii_def)

lemma lex_text_run:
  "0x3C \<notin> set s \<Longrightarrow> fold lex_step s (InText, acc, out) = (InText, rev s @ acc, out)"
  by (induction s arbitrary: acc) auto

lemma lex_tag_run:
  "0x3E \<notin> set s \<Longrightarrow> fold lex_step s (InTag, acc, out) = (InTag, rev s @ acc, out)"
  by (induction s arbitrary: acc) auto

lemma String_nat_digits: "set (String_nat n) \<subseteq> set digit_chars"
proof (induction n rule: String_nat.induct)
  case (1 n)
  have l: "length digit_chars = 10"
    by (simp add: digit_chars_def ascii_def)
  show ?case
  proof (cases "n < 10")
    case True
    then show ?thesis
      by (subst String_nat.simps) (simp add: l)
  next
    case False
    have "n mod 10 < length digit_chars"
      by (simp add: l)
    then have "digit_chars ! (n mod 10) \<in> set digit_chars"
      by (rule nth_mem)
    with False 1 show ?thesis
      by (subst String_nat.simps) simp
  qed
qed

lemma String_nat_no_gt: "0x3E \<notin> set (String_nat n)"
proof -
  have "0x3E \<notin> set digit_chars"
    by (simp add: digit_chars_def ascii_def)
  with String_nat_digits [of n] show ?thesis by blast
qed

lemma String_nat_no_quote: "0x22 \<notin> set (String_nat n)"
proof -
  have "0x22 \<notin> set digit_chars"
    by (simp add: digit_chars_def ascii_def)
  with String_nat_digits [of n] show ?thesis by blast
qed

lemma lex_createCell:
  assumes "0x3E \<notin> set align"
  shows "fold lex_step (createCell numToString content bold align gridSpan) (InText, acc, out) =
    (InText, rev CELL_TRAIL,
     rev (cell_tokens (safeContent (String_content numToString content)) bold align gridSpan)
       @ Chars (rev acc @ CELL_LEAD) # out)"
  using assms safeContent_no_markup [of "String_content numToString content"]
    String_nat_no_gt [of gridSpan]
  by (simp add: createCell_def Let_def cell_tokens_def cell_inner_def CELL_LEAD_def CELL_TRAIL_def
      lex_text_run lex_tag_run ascii_def)

lemma generateTableXml_rows:
  "generateTableXml numToString its tot =
     TABLE_OPEN @ concat (map (row_text numToString) (table_specs its tot)) @ ascii ''</w:tbl>''"
proof -
  have h: "foldl (\<lambda>xml h. xml @ createCell numToString (Str h) True (ascii ''center'') 0) x hs
      = x @ concat (map (\<lambda>h. cell_text numToString (Str h, True, ascii ''center'', 0)) hs)"
    for x hs
    by (induction hs arbitrary: x) (simp_all add: cell_text_def)
  have i: "foldl (append_item_row numToString) x ps
      = x @ concat (map (\<lambda>p. row_text numToString (item_specs p)) ps)"
    for x and ps :: "(nat \<times> 'a ProductItem) list"
    by (induction ps arbitrary: x)
       (simp_all add: append_item_row_def row_text_def item_specs_def cell_text_def
         split: prod.splits)
  show ?thesis
    by (simp add: generateTableXml_def Let_def h i table_specs_def row_text_def
        header_specs_def total_specs_def cell_text_def comp_def)
qed

lemma lex_cells:
  "specs_ok specs \<Longrightarrow>
   fold lex_step (concat (map (cell_text numToString) specs) @ ascii ''</w:tr>'')
     (InText, rev pend, out) =
     (InText, [], Tag (ascii ''/w:tr'') # rev (row_cell_tokens numToString pend specs) @ out)"
proof (induction specs arbitrary: pend out)
  case Nil
  then show ?case by (simp add: ascii_def)
next
  case (Cons spec specs)
  obtain content bold align gridSpan where spec: "spec = (content, bold, align, gridSpan)"
    by (cases spec) auto
  from Cons.prems have a: "0x3E \<notin> set align" and rest: "specs_ok specs"
    by (simp_all add: specs_ok_def spec)
  show ?case
    using Cons.IH [OF rest, of CELL_TRAIL]
    by (simp add: spec cell_text_def lex_createCell [OF a])
qed

lemma lex_row:
  assumes "specs_ok specs"
  shows "fold lex_step (row_text numToString specs) (InText, rev pend, out) =
     (InText, [],
      Tag (ascii ''/w:tr'') # rev (row_cell_tokens numToString [] specs)
        @ Tag (ascii ''w:tr'') # Chars pend # out)"
proof -
  have "fold lex_step (ascii ''<w:tr>'') (InText, rev pend, out) =
      (InText, rev [], Tag (ascii ''w:tr'') # Chars pend # out)"
    by (simp add: ascii_def)
  then show ?thesis
    using lex_cells [OF assms, of numToString "[]" "Tag (ascii ''w:tr'') # Chars pend # out"]
    by (simp add: row_text_def)
qed

lemma lex_rows:
  "list_all specs_ok rows \<Longrightarrow>
   fold lex_step (concat (map (row_text numToString) rows)) (InText, [], out) =
     (InText, [], rev (concat (map (row_tokens numToString) rows)) @ out)"
proof (induction rows arbitrary: out)
  case Nil
  then show ?case by simp
next
  case (Cons r rows)
  then have r: "specs_ok r" and rows: "list_all specs_ok rows" by simp_all
  show ?case
    using lex_row [OF r, of numToString "[]" out] Cons.IH [OF rows]
    by (simp add: row_tokens_def)
qed

lemma lex_TABLE_OPEN:
  "fold lex_step TABLE_OPEN (InText, [], []) = (InText, [], rev TABLE_OPEN_tokens)"
  unfolding TABLE_OPEN_tokens_def by code_simp

lemma TABLE_OPEN_tokens_no_row:
  "Tag (ascii ''w:tr'') \<notin> set TABLE_OPEN_tokens"
  unfolding TABLE_OPEN_tokens_def by code_simp

lemma table_specs_ok: "list_all specs_ok (table_specs its tot)"
  by (auto simp: table_specs_def specs_ok_def header_specs_def item_specs_def total_specs_def
      list_all_iff ascii_def)

lemma xml_tokens_generateTableXml:
  "xml_tokens (generateTableXml numToString its tot) =
     TABLE_OPEN_tokens @ concat (map (row_tokens numToString) (table_specs its tot))
       @ [Chars [], Tag (ascii ''/w:tbl''), Chars []]"
proof -
  have "fold lex_step (generateTableXml numToString its tot) (InText, [], []) =
      fold lex_step (ascii ''</w:tbl>'')
        (InText, [], rev (concat (map (row_tokens numToString) (table_specs its tot)))
           @ rev TABLE_OPEN_tokens)"
    by (simp add: generateTableXml_rows lex_TABLE_OPEN lex_rows [OF table_specs_ok])
  also have "\<dots> = (InText, [], Tag (ascii ''/w:tbl'') # Chars []
      # rev (concat (map (row_tokens numToString) (table_specs its tot))) @ rev TABLE_OPEN_tokens)"
    by (simp add: ascii_def)
  finally show ?thesis
    by (simp add: xml_tokens_def)
qed

lemma elements_named_skip:
  "Tag nm \<notin> set pre \<Longrightarrow> elements_named nm (pre @ rest) = elements_named nm rest"
proof -
  assume "Tag nm \<notin> set pre"
  then have "dropWhile (\<lambda>t. t \<noteq> Tag nm) (pre @ rest) = dropWhile (\<lambda>t. t \<noteq> Tag nm) rest"
    by (induction pre) auto
  then show ?thesis
    by (subst elements_named.simps, subst (2) elements_named.simps) simp
qed

lemma elements_named_none: "Tag nm \<notin> set toks \<Longrightarrow> elements_named nm toks = []"
proof -
  assume "Tag nm \<notin> set toks"
  then have "dropWhile (\<lambda>t. t \<noteq> Tag nm) toks = []"
    by (induction toks) auto
  then show ?thesis
    by (subst elements_named.simps) (simp only: list.case)
qed

lemma elements_named_element:
  assumes "Tag (0x2F # nm) \<notin> set inner"
  shows "elements_named nm (Tag nm # inner @ Tag (0x2F # nm) # rest) =
           inner # elements_named nm rest"
proof -
  have t: "takeWhile (\<lambda>t. t \<noteq> Tag (0x2F # nm)) (inner @ Tag (0x2F # nm) # rest) = inner"
    using assms by (induction inner) auto
  have d: "dropWhile (\<lambda>t. t \<noteq> Tag (0x2F # nm)) (inner @ Tag (0x2F # nm) # rest)
      = Tag (0x2F # nm) # rest"
    using assms by (induction inner) auto
  show ?thesis
    by (subst elements_named.simps) (simp add: t d)
qed

lemma takeWhile_quote:
  "0x22 \<notin> set x \<Longrightarrow> takeWhile (\<lambda>c. c \<noteq> 0x22) (x @ [0x22, 0x2F]) = x"
  for x :: jsstring
  by (induction x) auto

lemma elements_named_Chars: "elements_named nm (Chars s # rest) = elements_named nm rest"
  using elements_named_skip [of nm "[Chars s]" rest] by simp

lemma elements_named_Tag:
  "t \<noteq> nm \<Longrightarrow> elements_named nm (Tag t # rest) = elements_named nm rest"
  using elements_named_skip [of nm "[Tag t]" rest] by simp

lemma elements_named_Nil: "elements_named nm [] = []"
  by (simp add: elements_named_none)

lemma wt_cell_inner:
  "elements_named (ascii ''w:t'') (cell_inner safe bold align gridSpan) = [[Chars safe]]"
proof -
  have e: "elements_named (ascii ''w:t'') (Tag (ascii ''w:t'') # [Chars safe] @ Tag (0x2F # ascii ''w:t'') # rest)
      = [Chars safe] # elements_named (ascii ''w:t'') rest" for rest
    by (rule elements_named_element) simp
  show ?thesis
    using e
    by (simp add: cell_inner_def elements_named_Chars elements_named_Tag elements_named_Nil
        ascii_def)
qed

lemma read_cell_inner:
  assumes "0x22 \<notin> set align"
  shows "read_cell (cell_inner (safeContent s) bold align gridSpan) =
    \<lparr>cell_shown = s, cell_bold = bold, cell_align = Some align,
     cell_span = (if gridSpan > 0 then Some (String_nat gridSpan) else None)\<rparr>"
proof -
  have b: "(Tag (ascii ''w:b/'') \<in> set (cell_inner (safeContent s) bold align gridSpan)) = bold"
    by (simp add: cell_inner_def ascii_def)
  have a: \<open>attr_value (ascii ''w:jc w:val="'') (cell_inner (safeContent s) bold align gridSpan)
      = Some align\<close>
    using takeWhile_quote [OF assms]
    by (simp add: cell_inner_def attr_value_def ascii_def)
  have g: \<open>attr_value (ascii ''w:gridSpan w:val="'') (cell_inner (safeContent s) bold align gridSpan)
      = (if gridSpan > 0 then Some (String_nat gridSpan) else None)\<close>
    using takeWhile_quote [OF String_nat_no_quote [of gridSpan]]
    by (simp add: cell_inner_def attr_value_def ascii_def)
  show ?thesis
    by (simp add: read_cell_def wt_cell_inner b a g xml_unescape_safeContent)
qed

lemma cell_inner_no_end: "Tag (0x2F # ascii ''w:tc'') \<notin> set (cell_inner safe bold align gridSpan)"
  by (simp add: cell_inner_def ascii_def)

lemma cell_tokens_no_row_end:
  "Tag (0x2F # ascii ''w:tr'') \<notin> set (cell_tokens safe bold align gridSpan)"
  by (simp add: cell_tokens_def cell_inner_def ascii_def)

lemma cells_row_cell_tokens:
  "specs_ok specs \<Longrightarrow>
   map read_cell (elements_named (ascii ''w:tc'') (row_cell_tokens numToString pend specs)) =
     map (cell_expected numToString) specs"
proof (induction specs arbitrary: pend)
  case Nil
  then show ?case
    by (simp add: elements_named_Chars elements_named_Nil)
next
  case (Cons spec specs)
  obtain content bold align gridSpan where spec: "spec = (content, bold, align, gridSpan)"
    by (cases spec) auto
  from Cons.prems have a: "0x22 \<notin> set align" and rest: "specs_ok specs"
    by (simp_all add: specs_ok_def spec)
  let ?inner = "cell_inner (safeContent (String_content numToString content)) bold align gridSpan"
  have "elements_named (ascii ''w:tc'')
      (Tag (ascii ''w:tc'') # ?inner @ Tag (0x2F # ascii ''w:tc'')
         # row_cell_tokens numToString CELL_TRAIL specs)
      = ?inner # elements_named (ascii ''w:tc'') (row_cell_tokens numToString CELL_TRAIL specs)"
    by (rule elements_named_element) (rule cell_inner_no_end)
  moreover have "Tag (0x2F # ascii ''w:tc'') = Tag (ascii ''/w:tc'')"
    by (simp add: ascii_def)
  ultimately show ?case
    using Cons.IH [OF rest, of CELL_TRAIL]
    by (simp add: spec cell_tokens_def elements_named_Chars read_cell_inner [OF a]
        cell_expected_def)
qed

lemma row_cell_tokens_no_row_end:
  "Tag (0x2F # ascii ''w:tr'') \<notin> set (row_cell_tokens numToString pend specs)"
proof (induction specs arbitrary: pend)
  case Nil
  then show ?case by simp
next
  case (Cons spec specs)
  obtain content bold align gridSpan where spec: "spec = (content, bold, align, gridSpan)"
    by (cases spec) auto
  show ?case
    using Cons.IH [of CELL_TRAIL] cell_tokens_no_row_end
    by (simp add: spec)
qed

lemma row_tokens_append:
  "row_tokens numToString r @ rest =
     Chars [] # Tag (ascii ''w:tr'') # row_cell_tokens numToString [] r
       @ Tag (0x2F # ascii ''w:tr'') # rest"
  by (simp add: row_tokens_def ascii_def)

lemma rows_of_row_tokens:
  "elements_named (ascii ''w:tr'') (concat (map (row_tokens numToString) rows) @ rest) =
     map (row_cell_tokens numToString []) rows @ elements_named (ascii ''w:tr'') rest"
proof (induction rows)
  case Nil
  then show ?case by simp
next
  case (Cons r rows)
  have "elements_named (ascii ''w:tr'')
      (Tag (ascii ''w:tr'') # row_cell_tokens numToString [] r @ Tag (0x2F # ascii ''w:tr'')
         # concat (map (row_tokens numToString) rows) @ rest)
      = row_cell_tokens numToString [] r
        # elements_named (ascii ''w:tr'') (concat (map (row_tokens numToString) rows) @ rest)"
    by (rule elements_named_element) (rule row_cell_tokens_no_row_end)
  with Cons show ?case
    by (simp add: row_tokens_append elements_named_Chars)
qed

lemma fragment_rows_generateTableXml:
  "fragment_rows (generateTableXml numToString its tot) =
     map (map (cell_expected numToString)) (table_specs its tot)"
proof -
  have tail: "elements_named (ascii ''w:tr'') [Chars [], Tag (ascii ''/w:tbl''), Chars []] = []"
    by (rule elements_named_none) (simp add: ascii_def)
  have "elements_named (ascii ''w:tr'') (xml_tokens (generateTableXml numToString its tot)) =
      map (row_cell_tokens numToString []) (table_specs its tot)"
    by (simp only: xml_tokens_generateTableXml
        elements_named_skip [OF TABLE_OPEN_tokens_no_row] rows_of_row_tokens tail append_Nil2)
  moreover have "\<forall>specs \<in> set (table_specs its tot). specs_ok specs"
    using table_specs_ok [of its tot] by (simp add: list_all_iff)
  ultimately show ?thesis
    by (simp add: fragment_rows_def cells_row_cell_tokens)
qed


text \<open>
  Claim C8. The fragment for no items and the total \<open>0\<close> has exactly two rows: the header
  row of the eight bold, centred labels, and the total row, whose value cell shows
  exactly \<open>0\<close>. The builder is a total function: it has no failing branch. For any total
  and any conversion of numbers to text the fragment for no items has two rows.
\<close>

theorem empty_items_fragment:
  "fragment_rows (generateTableXml String_int [] 0) =
     [map (\<lambda>h. \<lparr>cell_shown = h, cell_bold = True, cell_align = Some (ascii ''center''),
                 cell_span = None\<rparr>) headers,
      [\<lparr>cell_shown = TOTAL_LABEL, cell_bold = True, cell_align = Some (ascii ''right''),
        cell_span = Some (ascii ''6'')\<rparr>,
       \<lparr>cell_shown = ascii ''0'', cell_bold = True, cell_align = Some (ascii ''center''),
        cell_span = None\<rparr>,
       \<lparr>cell_shown = [], cell_bold = False, cell_align = Some (ascii ''center''),
        cell_span = None\<rparr>]]
   \<and> length (fragment_rows (generateTableXml numToString [] tot)) = 2"
proof -
  have s: "String_int 0 = ascii ''0''" "String_nat 6 = ascii ''6''"
    by (simp_all add: String_int_def String_nat.simps digit_chars_def ascii_def)
  show ?thesis
    by (simp add: fragment_rows_generateTableXml table_specs_def header_specs_def
        total_specs_def cell_expected_def comp_def s)
qed

text \<open>
  Claim C9. For every item list and total, the fragment has one row per item between
  the header row and the total row, and its last row has exactly three cells: the total
  label, bold and right-aligned, spanning six grid columns; the total value, bold and
  centred; and an empty cell.
\<close>

theorem total_row_cells:
  "last (fragment_rows (generateTableXml numToString its tot)) =
     [\<lparr>cell_shown = TOTAL_LABEL, cell_bold = True, cell_align = Some (ascii ''right''),
       cell_span = Some (ascii ''6'')\<rparr>,
      \<lparr>cell_shown = numToString tot, cell_bold = True, cell_align = Some (ascii ''center''),
       cell_span = None\<rparr>,
      \<lparr>cell_shown = [], cell_bold = False, cell_align = Some (ascii ''center''),
       cell_span = None\<rparr>]
   \<and> length (fragment_rows (generateTableXml numToString its tot)) = length its + 2"
proof -
  have s: "String_nat 6 = ascii ''6''"
    by (simp add: String_nat.simps digit_chars_def ascii_def)
  show ?thesis
    by (simp add: fragment_rows_generateTableXml table_specs_def total_specs_def
        cell_expected_def s)
qed

section \<open>Properties of the tabular export\<close>

lemma js_join_lines:
  "js_join sep (h # map f xs @ [t]) = h @ concat (map (\<lambda>x. sep @ f x) xs) @ sep @ t"
  by (induction xs arbitrary: h) simp_all

lemma code_points_BOM: "code_points (0xFEFF # s) = 0xFEFF # code_points s"
  by (cases s) (simp_all add: scalar_of_unit_def is_high_surrogate_def is_low_surrogate_def)

lemma utf8_encode_BOM: "utf8_encode (0xFEFF # s) = [0xEF, 0xBB, 0xBF] @ utf8_encode s"
  by (simp add: utf8_encode_def code_points_BOM utf8_bytes_def)

lemma unat_byte: "n < 256 \<Longrightarrow> unat (of_nat n :: 8 word) = n"
  by (simp add: unat_of_nat)

lemma unat_unit: "n < 65536 \<Longrightarrow> unat (of_nat n :: 16 word) = n"
  by (simp add: unat_of_nat)

lemma radix_split:
  fixes n k :: nat
  obtains q r where "q = n div k" "r = n mod k" "n = q * k + r"
proof (rule that [OF refl refl])
  show "n = n div k * k + n mod k"
    by simp
qed

lemma utf8_decode_bytes:
  assumes "is_scalar_value cp"
  shows "utf8_decode (utf8_bytes cp @ rest) = map_option (Cons cp) (utf8_decode rest)"
proof -
  obtain q1 r1 where d1: "q1 = cp div 64" "r1 = cp mod 64" and e1: "cp = q1 * 64 + r1"
    by (rule radix_split)
  obtain q2 r2 where d2: "q2 = q1 div 64" "r2 = q1 mod 64" and e2: "q1 = q2 * 64 + r2"
    by (rule radix_split)
  obtain q3 r3 where d3: "q3 = q2 div 64" "r3 = q2 mod 64" and e3: "q2 = q3 * 64 + r3"
    by (rule radix_split)
  have l: "r1 < 64" "r2 < 64" "r3 < 64"
    by (simp_all add: d1 d2 d3)
  have q: "cp div 4096 = q2" "cp div 262144 = q3" "cp div 64 mod 64 = r2"
    "cp div 4096 mod 64 = r3"
    by (simp_all add: d1 d2 d3 div_mult2_eq [symmetric])
  consider "cp < 0x80" | "0x80 \<le> cp" "cp < 0x800" | "0x800 \<le> cp" "cp < 0x10000"
    | "0x10000 \<le> cp" "cp < 0x110000"
    using assms unfolding is_scalar_value_def by linarith
  then show ?thesis
  proof cases
    case 1
    then show ?thesis
      by (simp add: utf8_bytes_def unat_byte)
  next
    case 2
    define b0 where "b0 = 0xC0 + q1"
    define b1 where "b1 = 0x80 + r1"
    have r: "0xC0 \<le> b0" "b0 < 0xE0" "0x80 \<le> b1" "b1 < 0xC0"
      "(b0 - 0xC0) * 0x40 + (b1 - 0x80) = cp"
      using 2 e1 l unfolding b0_def b1_def by linarith+
    then have "b0 < 256" "b1 < 256"
      by linarith+
    then have u: "unat (of_nat b0 :: 8 word) = b0" "unat (of_nat b1 :: 8 word) = b1"
      by (simp_all only: unat_byte)
    have "utf8_bytes cp = [of_nat b0, of_nat b1]"
      using 2 unfolding b0_def b1_def d1 by (simp add: utf8_bytes_def)
    then show ?thesis
      using r 2 by (simp add: u is_continuation_def Let_def)
  next
    case 3
    define b0 where "b0 = 0xE0 + q2"
    define b1 where "b1 = 0x80 + r2"
    define b2 where "b2 = 0x80 + r1"
    have r: "0xE0 \<le> b0" "b0 < 0xF0" "0x80 \<le> b1" "b1 < 0xC0" "0x80 \<le> b2" "b2 < 0xC0"
      "(b0 - 0xE0) * 0x1000 + (b1 - 0x80) * 0x40 + (b2 - 0x80) = cp"
      using 3 e1 e2 l unfolding b0_def b1_def b2_def by linarith+
    then have "b0 < 256" "b1 < 256" "b2 < 256"
      by linarith+
    then have u: "unat (of_nat b0 :: 8 word) = b0" "unat (of_nat b1 :: 8 word) = b1"
      "unat (of_nat b2 :: 8 word) = b2"
      by (simp_all only: unat_byte)
    have "utf8_bytes cp = [of_nat (0xE0 + cp div 0x1000), of_nat (0x80 + cp div 0x40 mod 0x40),
        of_nat (0x80 + cp mod 0x40)]"
      using 3 by (simp add: utf8_bytes_def)
    then have "utf8_bytes cp = [of_nat b0, of_nat b1, of_nat b2]"
      unfolding b0_def b1_def b2_def d1 d2 d3 by (simp add: div_mult2_eq [symmetric])
    then show ?thesis
      using r 3 assms by (simp add: u is_continuation_def Let_def)
  next
    case 4
    define b0 where "b0 = 0xF0 + q3"
    define b1 where "b1 = 0x80 + r3"
    define b2 where "b2 = 0x80 + r2"
    define b3 where "b3 = 0x80 + r1"
    have r: "0xF0 \<le> b0" "b0 < 0xF8" "0x80 \<le> b1" "b1 < 0xC0" "0x80 \<le> b2" "b2 < 0xC0"
      "0x80 \<le> b3" "b3 < 0xC0"
      "(b0 - 0xF0) * 0x40000 + (b1 - 0x80) * 0x1000 + (b2 - 0x80) * 0x40 + (b3 - 0x80) = cp"
      using 4 e1 e2 e3 l unfolding b0_def b1_def b2_def b3_def by linarith+
    then have "b0 < 256" "b1 < 256" "b2 < 256" "b3 < 256"
      by linarith+
    then have u: "unat (of_nat b0 :: 8 word) = b0" "unat (of_nat b1 :: 8 word) = b1"
      "unat (of_nat b2 :: 8 word) = b2" "unat (of_nat b3 :: 8 word) = b3"
      by (simp_all only: unat_byte)
    have "utf8_bytes cp = [of_nat (0xF0 + cp div 0x40000), of_nat (0x80 + cp div 0x1000 mod 0x40),
        of_nat (0x80 + cp div 0x40 mod 0x40), of_nat (0x80 + cp mod 0x40)]"
      using 4 by (simp add: utf8_bytes_def)
    then have "utf8_bytes cp = [of_nat b0, of_nat b1, of_nat b2, of_nat b3]"
      unfolding b0_def b1_def b2_def b3_def d1 d2 d3 by (simp add: div_mult2_eq [symmetric])
    then show ?thesis
      using r 4 by (simp add: u is_continuation_def Let_def)
  qed
qed

lemma utf8_decode_encode:
  "list_all is_scalar_value cps \<Longrightarrow> utf8_decode (concat (map utf8_bytes cps)) = Some cps"
  by (induction cps) (simp_all add: utf8_decode_bytes)

lemma surrogate_nat:
  "is_high_surrogate c = (0xD800 \<le> unat c \<and> unat c \<le> 0xDBFF)"
  "is_low_surrogate c = (0xDC00 \<le> unat c \<and> unat c \<le> 0xDFFF)"
  by (simp_all add: is_high_surrogate_def is_low_surrogate_def word_le_nat_alt)

lemma unat_unit_bound: "unat (c :: 16 word) < 0x10000"
  using unsigned_less [of c, where ?'a = nat] by simp

lemma scalar_of_unit_scalar: "is_scalar_value (scalar_of_unit c)"
  using unat_unit_bound [of c]
  by (auto simp: scalar_of_unit_def surrogate_nat is_scalar_value_def)

lemma code_points_scalar: "list_all is_scalar_value (code_points s)"
proof (induction s rule: code_points.induct)
  case 1
  then show ?case by simp
next
  case (2 c)
  then show ?case by (simp add: scalar_of_unit_scalar)
next
  case (3 c d cs)
  show ?case
  proof (cases "is_high_surrogate c \<and> is_low_surrogate d")
    case True
    then have "is_scalar_value (0x10000 + (unat c - 0xD800) * 0x400 + (unat d - 0xDC00))"
      by (auto simp: surrogate_nat is_scalar_value_def)
    with True "3.IH"(1) [OF True] show ?thesis by simp
  next
    case False
    then have "code_points (c # d # cs) = scalar_of_unit c # code_points (d # cs)"
      by auto
    with "3.IH"(2) [OF False] show ?thesis
      by (simp add: scalar_of_unit_scalar)
  qed
qed

lemma code_points_units:
  assumes "is_scalar_value cp"
  shows "code_points (utf16_units cp @ rest) = cp # code_points rest"
proof (cases "cp < 0x10000")
  case True
  with assms have n: "cp < 0xD800 \<or> 0xE000 \<le> cp"
    by (auto simp: is_scalar_value_def)
  have u: "unat (of_nat cp :: 16 word) = cp"
    using True by (simp add: unat_unit)
  have s: "\<not> is_high_surrogate (of_nat cp :: 16 word)" "\<not> is_low_surrogate (of_nat cp :: 16 word)"
    using n by (auto simp: surrogate_nat u)
  then have "scalar_of_unit (of_nat cp :: 16 word) = cp"
    by (simp add: scalar_of_unit_def u)
  with s True show ?thesis
    by (cases rest) (simp_all add: utf16_units_def)
next
  case False
  with assms have b: "0x10000 \<le> cp" "cp < 0x110000"
    by (auto simp: is_scalar_value_def)
  obtain q r where d: "q = (cp - 0x10000) div 0x400" "r = (cp - 0x10000) mod 0x400"
    and e: "cp - 0x10000 = q * 0x400 + r"
    by (rule radix_split)
  have l: "r < 0x400"
    by (simp add: d)
  define hi where "hi = 0xD800 + q"
  define lo where "lo = 0xDC00 + r"
  have h: "0xD800 \<le> hi" "hi \<le> 0xDBFF" "0xDC00 \<le> lo" "lo \<le> 0xDFFF"
    "0x10000 + (hi - 0xD800) * 0x400 + (lo - 0xDC00) = cp"
    using b e l unfolding hi_def lo_def by linarith+
  then have "hi < 65536" "lo < 65536"
    by linarith+
  then have u: "unat (of_nat hi :: 16 word) = hi" "unat (of_nat lo :: 16 word) = lo"
    by (simp_all only: unat_unit)
  have "utf16_units cp = [of_nat (0xD800 + (cp - 0x10000) div 0x400),
      of_nat (0xDC00 + (cp - 0x10000) mod 0x400)]"
    using False by (simp add: utf16_units_def)
  then have "utf16_units cp = [of_nat hi, of_nat lo]"
    unfolding hi_def lo_def d by simp
  then show ?thesis
    using h by (simp add: surrogate_nat u)
qed

lemma code_points_utf16:
  "list_all is_scalar_value cps \<Longrightarrow> code_points (concat (map utf16_units cps)) = cps"
  by (induction cps) (simp_all add: code_points_units)

lemma to_well_formed_not_Nil: "to_well_formed (d # cs) \<noteq> []"
  by (cases cs) simp_all

lemma code_points_not_high:
  "\<not> is_high_surrogate c \<Longrightarrow> s \<noteq> [] \<Longrightarrow>
   code_points (c # s) = scalar_of_unit c # code_points s"
  by (cases s) simp_all

lemma code_points_to_well_formed: "code_points (to_well_formed s) = code_points s"
proof (induction s rule: to_well_formed.induct)
  case 1
  then show ?case by simp
next
  case (2 c)
  then show ?case
    by (simp add: scalar_of_unit_def is_surrogate_unit_def surrogate_nat)
next
  case (3 c d cs)
  show ?case
  proof (cases "is_surrogate_pair c d")
    case True
    with "3.IH"(1) [OF True] show ?thesis
      by (simp add: is_surrogate_pair_def surrogate_nat)
  next
    case False
    define c' where "c' = (if is_surrogate_unit c then 0xFFFD else c)"
    have p: "\<not> (is_high_surrogate c \<and> is_low_surrogate d)"
      using False by (simp add: is_surrogate_pair_def surrogate_nat)
    have h: "\<not> is_high_surrogate c'" if "is_surrogate_unit c"
      using that by (simp add: c'_def surrogate_nat)
    have u: "scalar_of_unit c' = scalar_of_unit c"
      by (auto simp: c'_def scalar_of_unit_def is_surrogate_unit_def surrogate_nat)
    have e: "code_points (c # d # cs) = scalar_of_unit c # code_points (d # cs)"
      using p by auto
    have w: "to_well_formed (c # d # cs) = c' # to_well_formed (d # cs)"
      using False by (simp add: c'_def)
    show ?thesis
    proof (cases "is_high_surrogate c'")
      case False
      from code_points_not_high [OF False to_well_formed_not_Nil, of d cs] "3.IH"(2) [OF \<open>\<not> is_surrogate_pair c d\<close>]
      show ?thesis
        by (simp only: w e u)
    next
      case True
      with h have n: "\<not> is_surrogate_unit c" by blast
      then have cc: "c' = c" by (simp add: c'_def)
      from True n show ?thesis
        by (simp add: cc is_surrogate_unit_def surrogate_nat)
    qed
  qed
qed

lemma digit_chars_nth:
  assumes "d < 10"
  shows "unat (digit_chars ! d) = 0x30 + d"
proof -
  have "list_all (\<lambda>d. unat (digit_chars ! d) = 0x30 + d) [0 ..< 10]"
    by code_simp
  with assms show ?thesis
    by (simp add: list_all_iff)
qed

lemma digit_chars_digit: "d < 10 \<Longrightarrow> is_decimal_digit (digit_chars ! d)"
  by (simp add: is_decimal_digit_def digit_chars_nth)

lemma String_nat_decimal:
  "String_nat n \<noteq> [] \<and> list_all is_decimal_digit (String_nat n)
   \<and> foldl (\<lambda>acc c. 10 * acc + (unat c - 0x30)) 0 (String_nat n) = n"
proof (induction n rule: String_nat.induct)
  case (1 n)
  show ?case
  proof (cases "n < 10")
    case True
    then show ?thesis
      by (subst (1 2 3) String_nat.simps) (simp add: digit_chars_nth digit_chars_digit)
  next
    case False
    then have d: "n mod 10 < 10" by simp
    from False 1 show ?thesis
      by (subst (1 2 3) String_nat.simps)
         (simp add: digit_chars_nth [OF d] digit_chars_digit [OF d])
  qed
qed

lemma decimal_value_String_nat: "decimal_value (String_nat n) = Some n"
  using String_nat_decimal [of n] by (simp add: decimal_value_def)

lemma generateExcelTable_text:
  "blob_bytes (generateExcelTable numToString its tot) =
     utf8_encode
       (0xFEFF #
        [0x5E8F, 0x53F7, 0x2C, 0x5546, 0x54C1, 0x540D, 0x79F0, 0x2C, 0x578B, 0x53F7, 0x2C,
         0x5355, 0x4F4D, 0x2C, 0x6570, 0x91CF, 0x2C, 0x5355, 0x4EF7, 0x2C, 0x91D1, 0x989D, 0x2C,
         0x5907, 0x6CE8]
        @ concat (map (\<lambda>(index, item).
                    [0x0A] @ String_nat (index + 1) @ [0x2C] @ name item @ [0x2C] @ model item
                      @ [0x2C] @ unit item @ [0x2C] @ numToString (quantity item) @ [0x2C]
                      @ numToString (price item) @ [0x2C] @ numToString (amount item) @ [0x2C]
                      @ remark item)
                  (zip [0 ..< length its] its))
        @ [0x0A, 0x2C, 0x2C, 0x2C, 0x2C, 0x2C, 0x5408, 0x8BA1, 0x2C] @ numToString tot @ [0x2C])"
  by (simp add: generateExcelTable_def Let_def js_join_lines headers_def TOTAL_LABEL_BARE_def
      ascii_def split_def comp_def)

text \<open>
  Claim C5. For every item list and total the export is a blob of type
  \<open>text/csv;charset=utf-8;\<close>. Its bytes start with the UTF-8 byte-order mark \<open>EF BB BF\<close> and
  are UTF-8 throughout: read as UTF-8 they give the code point \<open>FEFF\<close> and then the code
  points of the text of the export (made well-formed, if a value holds a surrogate that is
  not part of a pair). That text is, in UTF-16 code units (\<open>2C\<close> the comma, \<open>0A\<close> the line
  feed): the eight headers with a comma between neighbours; then for each item in input
  order a line feed and its position counted from one, name, model, unit, quantity,
  price, amount and remark with a comma between neighbours; then a line feed, five
  commas, the total label, a comma, the total and a comma. The values stand between the
  commas as they are: nothing is quoted or escaped. The position is written as a decimal
  numeral.
\<close>

theorem csv_export_layout:
  "blob_type (generateExcelTable numToString its tot) = ascii ''text/csv;charset=utf-8;''
   \<and> take 3 (blob_bytes (generateExcelTable numToString its tot)) = [0xEF, 0xBB, 0xBF]
   \<and> (\<exists>cps. utf8_decode (blob_bytes (generateExcelTable numToString its tot))
               = Some (0xFEFF # cps))
   \<and> (list_all is_scalar_value cps
        \<and> concat (map utf16_units cps) =
            to_well_formed
              ([0x5E8F, 0x53F7, 0x2C, 0x5546, 0x54C1, 0x540D, 0x79F0, 0x2C, 0x578B, 0x53F7,
                0x2C, 0x5355, 0x4F4D, 0x2C, 0x6570, 0x91CF, 0x2C, 0x5355, 0x4EF7, 0x2C, 0x91D1,
                0x989D, 0x2C, 0x5907, 0x6CE8]
               @ concat (map (\<lambda>(index, item).
                           [0x0A] @ String_nat (index + 1) @ [0x2C] @ name item @ [0x2C]
                             @ model item @ [0x2C] @ unit item @ [0x2C]
                             @ numToString (quantity item) @ [0x2C] @ numToString (price item)
                             @ [0x2C] @ numToString (amount item) @ [0x2C] @ remark item)
                         (zip [0 ..< length its] its))
               @ [0x0A, 0x2C, 0x2C, 0x2C, 0x2C, 0x2C, 0x5408, 0x8BA1, 0x2C] @ numToString tot
               @ [0x2C])
      \<longrightarrow> utf8_decode (blob_bytes (generateExcelTable numToString its tot))
            = Some (0xFEFF # cps))
   \<and> decimal_value (String_nat n) = Some n"
proof -
  define body where "body =
    [0x5E8F, 0x53F7, 0x2C, 0x5546, 0x54C1, 0x540D, 0x79F0, 0x2C, 0x578B, 0x53F7, 0x2C,
     0x5355, 0x4F4D, 0x2C, 0x6570, 0x91CF, 0x2C, 0x5355, 0x4EF7, 0x2C, 0x91D1, 0x989D,
     0x2C, 0x5907, 0x6CE8 :: jschar]
    @ concat (map (\<lambda>(index, item).
                [0x0A] @ String_nat (index + 1) @ [0x2C] @ name item @ [0x2C]
                  @ model item @ [0x2C] @ unit item @ [0x2C]
                  @ numToString (quantity item) @ [0x2C] @ numToString (price item)
                  @ [0x2C] @ numToString (amount item) @ [0x2C] @ remark item)
              (zip [0 ..< length its] its))
    @ [0x0A, 0x2C, 0x2C, 0x2C, 0x2C, 0x2C, 0x5408, 0x8BA1, 0x2C] @ numToString tot
    @ [0x2C]"
  have b: "blob_bytes (generateExcelTable numToString its tot) = utf8_encode (0xFEFF # body)"
    unfolding body_def by (rule generateExcelTable_text)
  have t: "blob_type (generateExcelTable numToString its tot) = ascii ''text/csv;charset=utf-8;''"
    by (simp add: generateExcelTable_def Let_def)
  have m: "take 3 (blob_bytes (generateExcelTable numToString its tot)) = [0xEF, 0xBB, 0xBF]"
    by (simp add: b utf8_encode_BOM)
  have d: "utf8_decode (blob_bytes (generateExcelTable numToString its tot))
      = Some (0xFEFF # code_points body)"
    using utf8_decode_encode [OF code_points_scalar [of "0xFEFF # body"]]
    by (simp add: b utf8_encode_def code_points_BOM)
  have w: "utf8_decode (blob_bytes (generateExcelTable numToString its tot)) = Some (0xFEFF # cps)"
    if "list_all is_scalar_value cps" "concat (map utf16_units cps) = to_well_formed body"
    using code_points_utf16 [OF that(1)] that(2) d code_points_to_well_formed [of body]
    by simp
  from t m d w decimal_value_String_nat [of n] show ?thesis
    unfolding body_def by blast
qed

text \<open>
  The export of the example item with the total 6: the name with its character outside
  the basic plane and the remark with its comma stand between the commas as they are, and
  the bytes are the byte-order mark and the UTF-8 encoding of the three lines.
\<close>

theorem csv_export_layout_witness:
  "list_all is_scalar_value example_export_code_points
   \<and> concat (map utf16_units example_export_code_points) =
       to_well_formed
         ([0x5E8F, 0x53F7, 0x2C, 0x5546, 0x54C1, 0x540D, 0x79F0, 0x2C, 0x578B, 0x53F7, 0x2C,
           0x5355, 0x4F4D, 0x2C, 0x6570, 0x91CF, 0x2C, 0x5355, 0x4EF7, 0x2C, 0x91D1, 0x989D,
           0x2C, 0x5907, 0x6CE8]
          @ concat (map (\<lambda>(index, item).
                      [0x0A] @ String_nat (index + 1) @ [0x2C] @ name item @ [0x2C]
                        @ model item @ [0x2C] @ unit item @ [0x2C]
                        @ String_int (quantity item) @ [0x2C] @ String_int (price item)
                        @ [0x2C] @ String_int (amount item) @ [0x2C] @ remark item)
                    (zip [0 ..< length [example_export_item]] [example_export_item]))
          @ [0x0A, 0x2C, 0x2C, 0x2C, 0x2C, 0x2C, 0x5408, 0x8BA1, 0x2C] @ String_int 6 @ [0x2C])
   \<and> utf8_decode (blob_bytes (generateExcelTable String_int [example_export_item] 6))
       = Some (0xFEFF # example_export_code_points)
   \<and> blob_bytes (generateExcelTable String_int [example_export_item] 6) =
       [0xEF, 0xBB, 0xBF, 0xE5, 0xBA, 0x8F, 0xE5, 0x8F, 0xB7, 0x2C, 0xE5, 0x95, 0x86, 0xE5, 0x93, 0x81,
        0xE5, 0x90, 0x8D, 0xE7, 0xA7, 0xB0, 0x2C, 0xE5, 0x9E, 0x8B, 0xE5, 0x8F, 0xB7, 0x2C, 0xE5, 0x8D,
        0x95, 0xE4, 0xBD, 0x8D, 0x2C, 0xE6, 0x95, 0xB0, 0xE9, 0x87, 0x8F, 0x2C, 0xE5, 0x8D, 0x95, 0xE4,
        0xBB, 0xB7, 0x2C, 0xE9, 0x87, 0x91, 0xE9, 0xA2, 0x9D, 0x2C, 0xE5, 0xA4, 0x87, 0xE6, 0xB3, 0xA8,
        0xA, 0x31, 0x2C, 0xE7, 0xAC, 0x94, 0xF0, 0x9F, 0x98, 0x80, 0x2C, 0x50, 0x31, 0x2C, 0x62, 0x6F,
        0x78, 0x2C, 0x32, 0x2C, 0x33, 0x2C, 0x36, 0x2C, 0x61, 0x2C, 0x62, 0xA, 0x2C, 0x2C, 0x2C, 0x2C,
        0x2C, 0xE5, 0x90, 0x88, 0xE8, 0xAE, 0xA1, 0x2C, 0x36, 0x2C]"
proof -
  have h1: "list_all is_scalar_value example_export_code_points"
    by (simp add: example_export_code_points_def is_scalar_value_def)
  have h2: "concat (map utf16_units example_export_code_points) =
       to_well_formed
         ([0x5E8F, 0x53F7, 0x2C, 0x5546, 0x54C1, 0x540D, 0x79F0, 0x2C, 0x578B, 0x53F7, 0x2C,
           0x5355, 0x4F4D, 0x2C, 0x6570, 0x91CF, 0x2C, 0x5355, 0x4EF7, 0x2C, 0x91D1, 0x989D,
           0x2C, 0x5907, 0x6CE8]
          @ concat (map (\<lambda>(index, item).
                      [0x0A] @ String_nat (index + 1) @ [0x2C] @ name item @ [0x2C]
                        @ model item @ [0x2C] @ unit item @ [0x2C]
                        @ String_int (quantity item) @ [0x2C] @ String_int (price item)
                        @ [0x2C] @ String_int (amount item) @ [0x2C] @ remark item)
                    (zip [0 ..< length [example_export_item]] [example_export_item]))
          @ [0x0A, 0x2C, 0x2C, 0x2C, 0x2C, 0x2C, 0x5408, 0x8BA1, 0x2C] @ String_int 6 @ [0x2C])"
    by (simp add: example_export_code_points_def utf16_units_def example_export_item_def
        String_int_def String_nat.simps digit_chars_def ascii_def is_surrogate_unit_def
        is_surrogate_pair_def)
  have h3: "blob_bytes (generateExcelTable String_int [example_export_item] 6) =
       [0xEF, 0xBB, 0xBF, 0xE5, 0xBA, 0x8F, 0xE5, 0x8F, 0xB7, 0x2C, 0xE5, 0x95, 0x86, 0xE5, 0x93, 0x81,
        0xE5, 0x90, 0x8D, 0xE7, 0xA7, 0xB0, 0x2C, 0xE5, 0x9E, 0x8B, 0xE5, 0x8F, 0xB7, 0x2C, 0xE5, 0x8D,
        0x95, 0xE4, 0xBD, 0x8D, 0x2C, 0xE6, 0x95, 0xB0, 0xE9, 0x87, 0x8F, 0x2C, 0xE5, 0x8D, 0x95, 0xE4,
        0xBB, 0xB7, 0x2C, 0xE9, 0x87, 0x91, 0xE9, 0xA2, 0x9D, 0x2C, 0xE5, 0xA4, 0x87, 0xE6, 0xB3, 0xA8,
        0xA, 0x31, 0x2C, 0xE7, 0xAC, 0x94, 0xF0, 0x9F, 0x98, 0x80, 0x2C, 0x50, 0x31, 0x2C, 0x62, 0x6F,
        0x78, 0x2C, 0x32, 0x2C, 0x33, 0x2C, 0x36, 0x2C, 0x61, 0x2C, 0x62, 0xA, 0x2C, 0x2C, 0x2C, 0x2C,
        0x2C, 0xE5, 0x90, 0x88, 0xE8, 0xAE, 0xA1, 0x2C, 0x36, 0x2C]"
    by (simp add: generateExcelTable_text utf8_encode_def utf8_bytes_def scalar_of_unit_def
        is_high_surrogate_def is_low_surrogate_def example_export_item_def
        String_int_def String_nat.simps digit_chars_def ascii_def)
  note e = csv_export_layout [of String_int "[example_export_item]" 6 example_export_code_points,
      THEN conjunct2, THEN conjunct2, THEN conjunct2, THEN conjunct1, rule_format,
      OF conjI [OF h1 h2]]
  show ?thesis
    by (intro conjI) (rule h1 h2 h3 e)+
qed

section \<open>Properties of the worksheet rows\<close>

lemma insertRow_split:
  "insertRow (Suc (length pre)) vals (pre @ post) = pre @ blank_row\<lparr>row_values := vals\<rparr> # post"
  by (simp add: insertRow_def)

lemma update_row_split:
  "update_row (Suc (length pre)) f (pre @ x # post) = pre @ f x # post"
  by (simp add: update_row_def nth_append list_update_append)

lemma insert_item_row_split:
  "insert_item_row (pre @ post, Suc (length pre)) p =
     (pre @ item_row p # post, Suc (Suc (length pre)))"
proof -
  obtain idx item where p: "p = (idx, item)" by (cases p) auto
  show ?thesis
    unfolding insert_item_row_def p
    by (simp add: Let_def insertRow_split update_row_split item_row_def blank_row_def)
qed

lemma foldl_insert_item_row:
  "foldl insert_item_row (pre @ post, Suc (length pre)) ps =
     (pre @ map item_row ps @ post, Suc (length pre + length ps))"
proof (induction ps arbitrary: pre)
  case Nil
  then show ?case by simp
next
  case (Cons p ps)
  have "foldl insert_item_row (pre @ post, Suc (length pre)) (p # ps) =
      foldl insert_item_row ((pre @ [item_row p]) @ post, Suc (length (pre @ [item_row p]))) ps"
    by (simp add: insert_item_row_split)
  also have "\<dots> = ((pre @ [item_row p]) @ map item_row ps @ post,
      Suc (length (pre @ [item_row p]) + length ps))"
    by (rule Cons.IH)
  finally show ?case by simp
qed

lemma insertTableRows_layout:
  assumes "1 \<le> r" "r \<le> length ws"
  shows "insertTableRows (int r) (Some td) ws =
     take (r - 1) ws @ [header_row (ws ! (r - 1))]
       @ map item_row (zip [0 ..< length (items td)] (items td))
       @ [total_row (total td)] @ drop r ws"
proof -
  define pre where "pre = take (r - 1) ws"
  define post where "post = drop r ws"
  define ps where "ps = zip [0 ..< length (items td)] (items td)"
  define x where "x = ws ! (r - 1)"
  from assms have "r - 1 < length ws" "Suc (r - 1) = r" by simp_all
  with id_take_nth_drop [of "r - 1" ws] have ws: "ws = pre @ x # post"
    by (simp add: pre_def post_def x_def)
  from assms have l: "r = Suc (length pre)"
    by (simp add: pre_def)
  have hdr: "(\<lambda>r. r\<lparr>row_values := map XString headers, font_bold := True,
      horizontal := Some (ascii ''center''), cell_horizontal := []\<rparr>) = header_row"
    by (simp add: header_row_def fun_eq_iff)
  have 1: "update_row (Suc (length pre)) header_row (pre @ x # post) = pre @ header_row x # post"
    by (rule update_row_split)
  have 2: "foldl insert_item_row ((pre @ [header_row x]) @ post, Suc (length (pre @ [header_row x]))) ps
      = ((pre @ [header_row x]) @ map item_row ps @ post, Suc (length (pre @ [header_row x]) + length ps))"
    by (rule foldl_insert_item_row)
  define pre2 where "pre2 = (pre @ [header_row x]) @ map item_row ps"
  have l2: "Suc (length (pre @ [header_row x]) + length ps) = Suc (length pre2)"
    by (simp add: pre2_def)
  have 3: "update_row (Suc (length pre2)) f (insertRow (Suc (length pre2)) vals (pre2 @ post))
      = pre2 @ f (blank_row\<lparr>row_values := vals\<rparr>) # post" for f and vals :: "'a xl_value list"
    by (simp add: insertRow_split update_row_split)
  have e: "pre @ header_row x # map item_row ps @ post = pre2 @ post"
    by (simp add: pre2_def)
  have "insertTableRows (int (Suc (length pre))) (Some td) (pre @ x # post) =
      pre2 @ total_row (total td) # post"
    unfolding insertTableRows_def
    apply (simp only: option.case hdr Let_def nat_int 1 flip: ps_def)
    apply (simp add: 2 [simplified] l2 [simplified] pre2_def [symmetric] flip: ps_def)
    apply (simp only: e 3)
    apply (simp add: total_row_def blank_row_def)
    done
  then have "insertTableRows (int r) (Some td) ws = pre2 @ total_row (total td) # post"
    by (simp only: ws [symmetric] l [symmetric])
  then show ?thesis
    by (simp add: pre2_def pre_def post_def ps_def x_def)
qed

text \<open>
  Claim C2, as the code has it. When the tag of the table field was found in row \<open>r\<close> of
  the sheet, the header row overwrites row \<open>r\<close> in place (bold, centred); the item rows
  (centred) and the total row (bold, right-aligned, its seventh cell centred) are inserted
  after it; the rows above row \<open>r\<close> stay; and every row that followed row \<open>r\<close> moves down
  by the number of inserted rows, which is the number of items plus one: the header row
  is not inserted, it replaces the row of the tag.
\<close>

theorem table_rows_overwrite_anchor_and_shift:
  assumes "1 \<le> r" and "r \<le> length ws"
  shows "length (insertTableRows (int r) (Some td) ws) = length ws + length (items td) + 1
    \<and> take (r - 1) (insertTableRows (int r) (Some td) ws) = take (r - 1) ws
    \<and> insertTableRows (int r) (Some td) ws ! (r - 1) = header_row (ws ! (r - 1))
    \<and> take (length (items td)) (drop r (insertTableRows (int r) (Some td) ws)) =
        map item_row (zip [0 ..< length (items td)] (items td))
    \<and> insertTableRows (int r) (Some td) ws ! (r + length (items td)) = total_row (total td)
    \<and> drop (r + length (items td) + 1) (insertTableRows (int r) (Some td) ws) = drop r ws"
proof -
  from assms obtain k where k: "r = Suc k" and kl: "k < length ws"
    by (cases r) auto
  define its where "its = map item_row (zip [0 ..< length (items td)] (items td))"
  have li: "length (items td) = length its"
    by (simp add: its_def)
  have lt: "length (take k ws) = k"
    using kl by simp
  have e: "insertTableRows (int (Suc k)) (Some td) ws =
      take k ws @ header_row (ws ! k) # its @ total_row (total td) # drop (Suc k) ws"
    using insertTableRows_layout [OF assms, of td] by (simp add: k its_def)
  have "length (take k ws @ header_row (ws ! k) # its @ total_row (total td) # drop (Suc k) ws)
      = length ws + length its + 1"
    using kl by (simp add: min_def)
  moreover have "take k (take k ws @ header_row (ws ! k) # its @ total_row (total td) # drop (Suc k) ws)
      = take k ws"
    using kl by (simp add: min_def)
  moreover have "(take k ws @ header_row (ws ! k) # its @ total_row (total td) # drop (Suc k) ws) ! k
      = header_row (ws ! k)"
    using kl by (simp add: nth_append min_def)
  moreover have "take (length its)
      (drop (Suc k) (take k ws @ header_row (ws ! k) # its @ total_row (total td) # drop (Suc k) ws))
      = its"
    using kl by (simp add: min_def)
  moreover have "(take k ws @ header_row (ws ! k) # its @ total_row (total td) # drop (Suc k) ws)
      ! (Suc k + length its) = total_row (total td)"
    using kl by (simp add: nth_append min_def)
  moreover have "drop (Suc k + length its + 1)
      (take k ws @ header_row (ws ! k) # its @ total_row (total td) # drop (Suc k) ws)
      = drop (Suc k) ws"
    using kl by (simp add: min_def)
  ultimately show ?thesis
    unfolding k e li
    by (simp add: its_def)
qed

text \<open>
  A sheet of two rows, the tag in row 1, one item: the header row takes row 1, the item
  row and the total row are rows 2 and 3, and the second row of the sheet is now row 4.
\<close>

theorem table_rows_overwrite_anchor_and_shift_witness:
  "((1::nat) \<le> 1 \<and> 1 \<le> length [blank_row\<lparr>row_values := [XString (ascii ''{-T-}'')]\<rparr>,
                               blank_row\<lparr>row_values := [XString (ascii ''B'')]\<rparr> :: int xl_row])
   \<and> drop 3 (insertTableRows 1
        (Some \<lparr>items = [\<lparr>item_id = ascii ''1'', name = ascii ''pen'', model = ascii ''P1'',
                           unit = ascii ''box'', quantity = 2, price = 3, amount = 6,
                           remark = []\<rparr>],
               total = 6\<rparr>)
        [blank_row\<lparr>row_values := [XString (ascii ''{-T-}'')]\<rparr>,
         blank_row\<lparr>row_values := [XString (ascii ''B'')]\<rparr> :: int xl_row]) =
       [blank_row\<lparr>row_values := [XString (ascii ''B'')]\<rparr>]
   \<and> length (insertTableRows 1
        (Some \<lparr>items = [\<lparr>item_id = ascii ''1'', name = ascii ''pen'', model = ascii ''P1'',
                           unit = ascii ''box'', quantity = 2, price = 3, amount = 6,
                           remark = []\<rparr>],
               total = 6\<rparr>)
        [blank_row\<lparr>row_values := [XString (ascii ''{-T-}'')]\<rparr>,
         blank_row\<lparr>row_values := [XString (ascii ''B'')]\<rparr> :: int xl_row]) = 4"
proof -
  let ?ws = "[blank_row\<lparr>row_values := [XString (ascii ''{-T-}'')]\<rparr>,
              blank_row\<lparr>row_values := [XString (ascii ''B'')]\<rparr>] :: int xl_row list"
  let ?td = "\<lparr>items = [\<lparr>item_id = ascii ''1'', name = ascii ''pen'', model = ascii ''P1'',
                           unit = ascii ''box'', quantity = 2, price = 3, amount = 6,
                           remark = []\<rparr>],
               total = 6::int\<rparr>"
  have h: "(1::nat) \<le> 1" "1 \<le> length ?ws" by simp_all
  from table_rows_overwrite_anchor_and_shift [OF h, of ?td]
  have "length (insertTableRows (int 1) (Some ?td) ?ws) = length ?ws + length (items ?td) + 1"
    and "drop (1 + length (items ?td) + 1) (insertTableRows (int 1) (Some ?td) ?ws) = drop 1 ?ws"
    by blast+
  then show ?thesis
    by (simp add: numeral_3_eq_3)
qed

text \<open>
  Claim C2 as stated fails on the same sheet: with one item the claim has the row that
  followed the tag move down by three rows, from row 2 to row 5; the sheet then has four
  rows, and the row is row 4.
\<close>

theorem table_rows_shift_counterexample:
  "length (insertTableRows 1
        (Some \<lparr>items = [\<lparr>item_id = ascii ''1'', name = ascii ''pen'', model = ascii ''P1'',
                           unit = ascii ''box'', quantity = 2, price = 3, amount = 6,
                           remark = []\<rparr>],
               total = 6\<rparr>)
        [blank_row\<lparr>row_values := [XString (ascii ''{-T-}'')]\<rparr>,
         blank_row\<lparr>row_values := [XString (ascii ''B'')]\<rparr> :: int xl_row]) = 4
   \<and> insertTableRows 1
        (Some \<lparr>items = [\<lparr>item_id = ascii ''1'', name = ascii ''pen'', model = ascii ''P1'',
                           unit = ascii ''box'', quantity = 2, price = 3, amount = 6,
                           remark = []\<rparr>],
               total = 6\<rparr>)
        [blank_row\<lparr>row_values := [XString (ascii ''{-T-}'')]\<rparr>,
         blank_row\<lparr>row_values := [XString (ascii ''B'')]\<rparr> :: int xl_row] ! 3 =
       blank_row\<lparr>row_values := [XString (ascii ''B'')]\<rparr>"
  by code_simp

section \<open>Properties of document filling\<close>

lemma find_target_none:
  "filter (\<lambda>p. map_option textContent (node_at root p) = Some s) ps = [] \<Longrightarrow>
   find_target root s ps = None"
  by (induction ps) (auto split: if_splits)

lemma splice_table_no_match:
  assumes "\<And>xml. outZip DOCUMENT_PART = Some xml \<Longrightarrow>
             matching_text_nodes (parseFromString env xml) placeholder = []"
  shows "splice_table env numToString placeholder tableField tableData outZip =
    (outZip,
     if has_document_text outZip \<and> tableField \<noteq> None \<and> tableData \<noteq> None
     then [ConsoleWarn PLACEHOLDER_WARNING] else [])"
proof (cases "outZip DOCUMENT_PART")
  case None
  then show ?thesis
    by (simp add: splice_table_def has_document_text_def)
next
  case (Some xml)
  from assms [OF Some]
  have "find_target (parseFromString env xml) placeholder
      (elementsByTagName (ascii ''w:t'') (parseFromString env xml)) = None"
    unfolding matching_text_nodes_def by (rule find_target_none)
  with Some show ?thesis
    by (cases tableField; cases tableData)
       (simp_all add: splice_table_def has_document_text_def Let_def)
qed

lemma generateFilledDocument_rendered:
  assumes "byteLength c \<noteq> 0"
    and "archive c = Inr inZip"
    and "render env inZip
           (template_data_for data (table_field fieldDefs) (tablePlaceholder (random_number env)))
         = Inr outZip"
  shows "generateFilledDocument env numToString (Some c) data tableData fieldDefs =
    (Inr (fst (splice_table env numToString (tablePlaceholder (random_number env))
                (table_field fieldDefs) tableData outZip)),
     snd (splice_table env numToString (tablePlaceholder (random_number env))
                (table_field fieldDefs) tableData outZip))"
  using assms
  by (simp add: generateFilledDocument_def Let_def table_field_def template_data_for_def
      split: prod.splits)

lemma generateFilledDocument_rejected:
  "rejected (generateFilledDocument env numToString content data tableData fieldDefs) =
   (case content of
      None \<Rightarrow> True
    | Some c \<Rightarrow>
        if byteLength c = 0 then True
        else (case archive c of
                Inl e \<Rightarrow> True
              | Inr inZip \<Rightarrow>
                  (case render env inZip
                          (template_data_for data (table_field fieldDefs)
                             (tablePlaceholder (random_number env))) of
                     Inl e \<Rightarrow> True
                   | Inr outZip \<Rightarrow> False)))"
  by (simp add: generateFilledDocument_def rejected_def Let_def table_field_def
      template_data_for_def split: option.splits sum.splits prod.splits)

lemma splice_table_found:
  assumes "outZip DOCUMENT_PART = Some xml" "xml \<noteq> []"
    and "find_target (parseFromString env xml) placeholder
           (elementsByTagName (ascii ''w:t'') (parseFromString env xml)) = Some q"
  shows "splice_table env numToString placeholder (Some tf) (Some td) outZip =
    (case elementsByTagName (ascii ''w:tbl'')
            (parseFromString env
               (wrappedTableXml (generateTableXml numToString (items td) (total td)))) of
       [] \<Rightarrow> outZip
     | t # ts \<Rightarrow>
         (case node_at
                 (parseFromString env
                    (wrappedTableXml (generateTableXml numToString (items td) (total td)))) t of
            None \<Rightarrow> outZip
          | Some tableNode \<Rightarrow>
              outZip(DOCUMENT_PART \<mapsto>
                serializeToString env (replace_at (parseFromString env xml) q tableNode))),
     [])"
  using assms
  by (simp add: splice_table_def Let_def split: list.splits option.splits)

text \<open>
  Claim C4, as the code has it. When the file is not empty, its archive can be read, the
  engine renders without error, and no \<open>w:t\<close> element of the rendered primary part has
  exactly the sentinel as its text content, generation succeeds and returns the rendered
  package as the engine left it: nothing is spliced in. A warning is written to the
  console exactly when a table field and table data were passed and the primary part is
  there and not empty; in every other case nothing is written.
\<close>

theorem missing_sentinel_skips_splice:
  assumes "byteLength c \<noteq> 0"
    and "archive c = Inr inZip"
    and "render env inZip
           (template_data_for data (table_field fieldDefs) (tablePlaceholder (random_number env)))
         = Inr outZip"
    and "case outZip DOCUMENT_PART of
           None \<Rightarrow> True
         | Some xml \<Rightarrow>
             matching_text_nodes (parseFromString env xml) (tablePlaceholder (random_number env))
               = []"
  shows "generateFilledDocument env numToString (Some c) data tableData fieldDefs =
    (Inr outZip,
     if has_document_text outZip \<and> table_field fieldDefs \<noteq> None \<and> tableData \<noteq> None
     then [ConsoleWarn PLACEHOLDER_WARNING] else [])"
proof -
  from assms(4) have "splice_table env numToString (tablePlaceholder (random_number env))
      (table_field fieldDefs) tableData outZip =
    (outZip,
     if has_document_text outZip \<and> table_field fieldDefs \<noteq> None \<and> tableData \<noteq> None
     then [ConsoleWarn PLACEHOLDER_WARNING] else [])"
    by (intro splice_table_no_match) simp
  then show ?thesis
    by (simp add: generateFilledDocument_rendered [OF assms(1,2,3)])
qed

lemma lazy_body_append:
  "lazy_body x = Some (b, r) \<Longrightarrow> lazy_body (x @ s) = Some (b, r @ s)"
proof (induction x arbitrary: b)
  case Nil
  then show ?case by simp
next
  case (Cons c cs)
  show ?case
  proof (cases "starts_with (c # cs) CLOSE_DELIM")
    case True
    then have "starts_with (c # cs @ s) CLOSE_DELIM"
      by (cases cs) (auto simp: CLOSE_DELIM_chars)
    with True Cons.prems show ?thesis
      by (cases cs) (auto simp: CLOSE_DELIM_chars)
  next
    case False
    with Cons.prems obtain b' where b': "lazy_body cs = Some (b', r)" "b = c # b'"
      by (auto split: option.splits)
    then have "cs \<noteq> []" by auto
    with False have "\<not> starts_with (c # cs @ s) CLOSE_DELIM"
      by (cases cs) (auto simp: CLOSE_DELIM_chars)
    with Cons.IH [OF b'(1)] b'(2) show ?thesis
      by simp
  qed
qed

lemma match_at_append:
  assumes "match_at x = Some (g, r)"
  shows "match_at (x @ s) = Some (g, r @ s)"
proof -
  from assms obtain c cs b where x: "x = 0x7B # 0x2D # c # cs"
    and b: "lazy_body cs = Some (b, r)" and g: "g = c # b"
    by (cases x; cases "tl x"; cases "tl (tl x)")
       (auto simp: match_at_def OPEN_DELIM_chars split: if_splits option.splits)
  from lazy_body_append [OF b] show ?thesis
    by (simp add: match_at_def OPEN_DELIM_chars x g)
qed

lemma match_at_none_append:
  assumes "\<not> starts_with (c # cs) OPEN_DELIM" "s = [] \<or> starts_with s OPEN_DELIM"
  shows "match_at (c # cs @ s) = None"
proof -
  from assms have "\<not> starts_with (c # cs @ s) OPEN_DELIM"
    by (cases cs; cases s) (auto simp: OPEN_DELIM_chars)
  then show ?thesis
    by (simp add: match_at_def)
qed

lemma replace_tags_closed:
  assumes "tags_closed p" "s = [] \<or> starts_with s OPEN_DELIM"
  shows "replace_tags f (p @ s) = replace_tags f p @ replace_tags f s"
  using assms(1)
proof (induction p rule: tags_closed.induct)
  case 1
  then show ?case by simp
next
  case (2 c cs)
  show ?case
  proof (cases "match_at (c # cs)")
    case None
    with "2.prems" have n: "\<not> starts_with (c # cs) OPEN_DELIM" and t: "tags_closed cs"
      by (simp_all split: if_splits)
    from "2.IH"(1) [OF None n t] match_at_none_append [OF n assms(2)] None
    show ?thesis by simp
  next
    case (Some a)
    then obtain g r where a: "a = (g, r)" by (cases a)
    with Some "2.prems" have t: "tags_closed r" by simp
    from "2.IH"(2) [OF Some [unfolded a] refl t] match_at_append [OF Some [unfolded a], of s]
      Some a
    show ?thesis by simp
  qed
qed

lemma replace_tags_tag:
  assumes "x \<noteq> []" "\<not> includes_js (tl x) CLOSE_DELIM"
  shows "replace_tags f (placeholder_tag x @ rest) = f (trim x) @ replace_tags f rest"
proof -
  have e: "placeholder_tag x @ rest = 0x7B # (0x2D # x @ CLOSE_DELIM @ rest)"
    by (simp add: placeholder_tag_def OPEN_DELIM_chars)
  have m: "match_at (0x7B # (0x2D # x @ CLOSE_DELIM @ rest)) = Some (x, rest)"
    using match_at_tag [OF assms, of rest] by (simp only: e)
  show ?thesis
    unfolding e by (simp add: m)
qed

lemma replace_tags_plain:
  "\<not> includes_js s OPEN_DELIM \<Longrightarrow> replace_tags f s = s"
proof (induction s)
  case Nil
  then show ?case by simp
next
  case (Cons c s)
  then have "match_at (c # s) = None"
    by (simp add: match_at_def)
  with Cons show ?case by simp
qed


subsection \<open>The examples evaluated\<close>

lemma example_part_names:
  "CONTENT_TYPES_PART \<noteq> DOCUMENT_PART" "RELS_PART \<noteq> DOCUMENT_PART"
  "SECOND_DOCUMENT_PART \<noteq> DOCUMENT_PART"
  by (simp_all add: CONTENT_TYPES_PART_def RELS_PART_def SECOND_DOCUMENT_PART_def
      DOCUMENT_PART_def ascii_def)

lemma example_package_main [simp]: "example_package main_part s main_part = Some s"
  by (simp add: example_package_def)

lemma example_package_upd [simp]:
  "(example_package main_part s)(main_part \<mapsto> t) = example_package main_part t"
  by (simp add: example_package_def)

lemma example_package_renamed [simp]:
  "example_package SECOND_DOCUMENT_PART s DOCUMENT_PART = None"
  using example_part_names by (simp add: example_package_def)

lemma example_sentinel:
  "tablePlaceholder (random_number example_env) = ascii ''___INSERT_TABLE_HERE_42___''"
  "tablePlaceholder (random_number example_env_renamed) = ascii ''___INSERT_TABLE_HERE_42___''"
  by (simp_all add: tablePlaceholder_def example_env_def example_env_renamed_def
      String_nat.simps digit_chars_def ascii_def)

lemma example_table_field_found:
  "table_field (Some [example_table_field]) = Some example_table_field"
  by (simp add: table_field_def example_table_field_def)

lemma example_plain_no_tag: "\<not> includes_js example_plain_template OPEN_DELIM"
  by code_simp

lemma example_plain_well_formed: "\<not> malformed_tags example_plain_template"
  by code_simp

lemma example_plain_matches: "matchAll example_plain_template = []"
  by code_simp

lemma example_plain_rendered:
  "Docxtemplater_render part (example_package part example_plain_template) td =
     Inr (example_package part example_plain_template)"
  by (simp add: Docxtemplater_render_def unresolved_tags_def example_plain_matches
      example_plain_well_formed replace_tags_plain [OF example_plain_no_tag])

lemma example_plain_no_sentinel:
  "matching_text_nodes (xml_parse example_plain_template) (ascii ''___INSERT_TABLE_HERE_42___'')
     = []"
  by code_simp

lemma example_open_closed: "tags_closed example_open"
  by code_simp

lemma example_open_no_tag: "\<not> includes_js example_open OPEN_DELIM"
  by code_simp

lemma example_close_no_tag: "\<not> includes_js example_close OPEN_DELIM"
  by code_simp

lemma example_keyword: "TABLE_KEYWORD \<noteq> []" "\<not> includes_js (tl TABLE_KEYWORD) CLOSE_DELIM"
  "trim TABLE_KEYWORD = TABLE_KEYWORD"
  by code_simp+

lemma example_table_matches:
  "map match_name (matchAll example_table_template) = [TABLE_KEYWORD]"
  by code_simp

lemma example_table_well_formed: "\<not> malformed_tags example_table_template"
  by code_simp

lemma example_table_rendered:
  "Docxtemplater_render DOCUMENT_PART (example_package DOCUMENT_PART example_table_template)
     (Map.empty(TABLE_KEYWORD \<mapsto> ascii ''___INSERT_TABLE_HERE_42___'')) =
   Inr (example_package DOCUMENT_PART
          (example_open @ ascii ''___INSERT_TABLE_HERE_42___'' @ example_close))"
proof -
  have "replace_tags f example_table_template = example_open @ f TABLE_KEYWORD @ example_close" for f
    unfolding example_table_template_def
    using replace_tags_closed [OF example_open_closed, of "placeholder_tag TABLE_KEYWORD @ example_close" f]
      replace_tags_tag [OF example_keyword(1,2), of f example_close]
    by (simp add: starts_with_tag example_keyword(3) replace_tags_plain [OF example_open_no_tag]
        replace_tags_plain [OF example_close_no_tag])
  then show ?thesis
    by (simp add: Docxtemplater_render_def unresolved_tags_def example_table_matches
        example_table_well_formed value_of_def)
qed

lemma example_table_target:
  "find_target
     (xml_parse (example_open @ ascii ''___INSERT_TABLE_HERE_42___'' @ example_close))
     (ascii ''___INSERT_TABLE_HERE_42___'')
     (elementsByTagName (ascii ''w:t'')
        (xml_parse (example_open @ ascii ''___INSERT_TABLE_HERE_42___'' @ example_close)))
   = Some [0, 0]"
  by code_simp

text \<open>
  The field list names a table field, table data is passed, and the template holds no
  tag: the engine leaves the primary part as it is, no text node equals the sentinel,
  and the package comes back unchanged, with the warning.
\<close>

theorem missing_sentinel_skips_splice_witness:
  "byteLength (example_file example_plain_template) \<noteq> 0
   \<and> archive (example_file example_plain_template) =
       Inr (example_package DOCUMENT_PART example_plain_template)
   \<and> render example_env (example_package DOCUMENT_PART example_plain_template)
       (template_data_for Map.empty (table_field (Some [example_table_field]))
          (tablePlaceholder (random_number example_env)))
       = Inr (example_package DOCUMENT_PART example_plain_template)
   \<and> (case (example_package DOCUMENT_PART example_plain_template) DOCUMENT_PART of
        None \<Rightarrow> True
      | Some xml \<Rightarrow>
          matching_text_nodes (parseFromString example_env xml)
            (tablePlaceholder (random_number example_env)) = [])
   \<and> generateFilledDocument example_env String_int (Some (example_file example_plain_template))
       Map.empty (Some \<lparr>items = [example_item], total = 1\<rparr>) (Some [example_table_field]) =
       (Inr (example_package DOCUMENT_PART example_plain_template), [ConsoleWarn PLACEHOLDER_WARNING])"
proof -
  have h1: "byteLength (example_file example_plain_template) \<noteq> 0"
    by (simp add: example_file_def)
  have h2: "archive (example_file example_plain_template) =
      Inr (example_package DOCUMENT_PART example_plain_template)"
    by (simp add: example_file_def)
  have h3: "render example_env (example_package DOCUMENT_PART example_plain_template)
       (template_data_for Map.empty (table_field (Some [example_table_field]))
          (tablePlaceholder (random_number example_env)))
       = Inr (example_package DOCUMENT_PART example_plain_template)"
    by (simp add: example_env_def example_plain_rendered)
  have p: "parseFromString example_env = xml_parse"
    by (simp add: example_env_def)
  have h4: "case (example_package DOCUMENT_PART example_plain_template) DOCUMENT_PART of
        None \<Rightarrow> True
      | Some xml \<Rightarrow>
          matching_text_nodes (parseFromString example_env xml)
            (tablePlaceholder (random_number example_env)) = []"
    by (simp add: p example_sentinel example_plain_no_sentinel)
  have t: "has_document_text (example_package DOCUMENT_PART example_plain_template)"
    by (simp add: has_document_text_def example_plain_template_def example_open_def ascii_def)
  have c: "(has_document_text (example_package DOCUMENT_PART example_plain_template)
      \<and> table_field (Some [example_table_field]) \<noteq> None
      \<and> Some \<lparr>items = [example_item], total = 1\<rparr> \<noteq> None) = True"
    using t by (simp add: example_table_field_found)
  note e = missing_sentinel_skips_splice [OF h1 h2 h3 h4, of String_int
      "Some \<lparr>items = [example_item], total = 1\<rparr>", unfolded c if_True]
  show ?thesis
    by (intro conjI) (rule h1 h2 h3 h4 e)+
qed

text \<open>
  Claim C4 as stated fails when the rendered package has no part named
  \<open>word/document.xml\<close>. The main part of the package is named \<open>word/document2.xml\<close> and
  holds no tag; the field list names a table field and table data is passed. The engine
  renders without error, no text node of the package equals the sentinel, generation
  succeeds and nothing is spliced in, but no warning is written:
  \<open>outZip.file("word/document.xml")\<close> is null, and the guard \<open>docXmlContent && ...\<close> skips
  the search together with the warning.
\<close>

theorem missing_sentinel_no_warning_counterexample:
  "table_field (Some [example_table_field]) = Some example_table_field
   \<and> byteLength example_file_renamed = 2048
   \<and> archive example_file_renamed = Inr (example_package SECOND_DOCUMENT_PART example_plain_template)
   \<and> render example_env_renamed (example_package SECOND_DOCUMENT_PART example_plain_template)
       (Map.empty(fieldName example_table_field \<mapsto>
          tablePlaceholder (random_number example_env_renamed)))
       = Inr (example_package SECOND_DOCUMENT_PART example_plain_template)
   \<and> (example_package SECOND_DOCUMENT_PART example_plain_template) DOCUMENT_PART = None
   \<and> matching_text_nodes (parseFromString example_env_renamed example_plain_template)
       (tablePlaceholder (random_number example_env_renamed)) = []
   \<and> generateFilledDocument example_env_renamed String_int (Some example_file_renamed)
       Map.empty (Some \<lparr>items = [example_item], total = 1\<rparr>) (Some [example_table_field]) =
       (Inr (example_package SECOND_DOCUMENT_PART example_plain_template), [])"
proof -
  have n: "SECOND_DOCUMENT_PART \<noteq> DOCUMENT_PART"
    by (simp add: SECOND_DOCUMENT_PART_def DOCUMENT_PART_def ascii_def)
  have h1: "byteLength example_file_renamed \<noteq> 0"
    by (simp add: example_file_renamed_def)
  have h2: "archive example_file_renamed = Inr (example_package SECOND_DOCUMENT_PART example_plain_template)"
    by (simp add: example_file_renamed_def)
  have h3: "render example_env_renamed (example_package SECOND_DOCUMENT_PART example_plain_template)
       (template_data_for Map.empty (table_field (Some [example_table_field]))
          (tablePlaceholder (random_number example_env_renamed)))
       = Inr (example_package SECOND_DOCUMENT_PART example_plain_template)"
    by (simp add: example_env_renamed_def example_plain_rendered)
  have s: "splice_table example_env_renamed String_int
      (tablePlaceholder (random_number example_env_renamed))
      (table_field (Some [example_table_field])) (Some \<lparr>items = [example_item], total = 1\<rparr>)
      (example_package SECOND_DOCUMENT_PART example_plain_template) =
      ((example_package SECOND_DOCUMENT_PART example_plain_template), [])"
    using n by (simp add: splice_table_def)
  have p: "parseFromString example_env_renamed = xml_parse"
    by (simp add: example_env_renamed_def)
  have c1: "byteLength example_file_renamed = 2048"
    by (simp add: example_file_renamed_def)
  have c3: "render example_env_renamed (example_package SECOND_DOCUMENT_PART example_plain_template)
       (Map.empty(fieldName example_table_field \<mapsto>
          tablePlaceholder (random_number example_env_renamed)))
       = Inr (example_package SECOND_DOCUMENT_PART example_plain_template)"
    by (simp add: example_env_renamed_def example_plain_rendered)
  have c4: "(example_package SECOND_DOCUMENT_PART example_plain_template) DOCUMENT_PART = None"
    using n by simp
  have c5: "matching_text_nodes (parseFromString example_env_renamed example_plain_template)
       (tablePlaceholder (random_number example_env_renamed)) = []"
    by (simp add: p example_sentinel example_plain_no_sentinel)
  have c6: "generateFilledDocument example_env_renamed String_int (Some example_file_renamed)
       Map.empty (Some \<lparr>items = [example_item], total = 1\<rparr>) (Some [example_table_field]) =
       (Inr (example_package SECOND_DOCUMENT_PART example_plain_template), [])"
    by (simp only: generateFilledDocument_rendered [OF h1 h2 h3] s fst_conv snd_conv)
  show ?thesis
    by (intro conjI) (rule example_table_field_found c1 h2 c3 c4 c5 c6)+
qed



text \<open>
  Claim C3, as the code has it. Neither the builder nor \<open>generateFilledDocument\<close> compares
  the amounts with the total. For every item list and every total, the total row of the
  fragment shows the total it was given and every item row shows the amount it was given.
  Whether \<open>generateFilledDocument\<close> rejects a call does not depend on the table data. On
  the path that splices (the file is not empty, its archive can be read, the engine
  renders without error, the rendered primary part is not empty, the field list holds a
  table field, and the search finds a target paragraph), every table data is accepted:
  the fragment is built from its items and its total as they are, and the first \<open>w:tbl\<close>
  element of the parsed fragment replaces the target paragraph. The equation is the
  caller's: \<open>ProductTable\<close> saves the items as they are, and as total the amounts added one
  after the other, in the order of the list, to the number zero, with the addition of
  numbers as it is.
\<close>

theorem total_is_taken_as_given:
  "map cell_shown (last (fragment_rows (generateTableXml numToString its tot))) =
     [TOTAL_LABEL, numToString tot, []]
   \<and> map (map cell_shown) (butlast (tl (fragment_rows (generateTableXml numToString its tot)))) =
       map (\<lambda>(index, item).
              [String_nat (index + 1), name item, model item, unit item,
               numToString (quantity item), numToString (price item),
               numToString (amount item), remark item])
         (zip [0 ..< length its] its)
   \<and> rejected (generateFilledDocument env numToString content data tableData fieldDefs) =
       rejected (generateFilledDocument env numToString content data otherTableData fieldDefs)
   \<and> (byteLength c \<noteq> 0 \<and> archive c = Inr inZip
        \<and> render env inZip
            (template_data_for data (table_field fieldDefs)
               (tablePlaceholder (random_number env))) = Inr outZip
        \<and> outZip DOCUMENT_PART = Some xml \<and> xml \<noteq> []
        \<and> table_field fieldDefs = Some tf
        \<and> find_target (parseFromString env xml) (tablePlaceholder (random_number env))
            (elementsByTagName (ascii ''w:t'') (parseFromString env xml)) = Some q
      \<longrightarrow> generateFilledDocument env numToString (Some c) data (Some td) fieldDefs =
            (Inr (case elementsByTagName (ascii ''w:tbl'')
                         (parseFromString env
                            (wrappedTableXml
                               (generateTableXml numToString (items td) (total td)))) of
                    [] \<Rightarrow> outZip
                  | t # ts \<Rightarrow>
                      (case node_at
                              (parseFromString env
                                 (wrappedTableXml
                                    (generateTableXml numToString (items td) (total td)))) t of
                         None \<Rightarrow> outZip
                       | Some tableNode \<Rightarrow>
                           outZip(DOCUMENT_PART \<mapsto>
                             serializeToString env
                               (replace_at (parseFromString env xml) q tableNode)))),
             []))
   \<and> items (ProductTable_onSave add_num zero_num saved) = saved
   \<and> total (ProductTable_onSave add_num zero_num []) = zero_num
   \<and> total (ProductTable_onSave add_num zero_num (saved @ [it])) =
       add_num (total (ProductTable_onSave add_num zero_num saved)) (amount it)"
proof -
  have r: "remark_or_empty x = x" for x
    by (simp add: remark_or_empty_def)
  have a: "map cell_shown (last (fragment_rows (generateTableXml numToString its tot))) =
     [TOTAL_LABEL, numToString tot, []]"
    by (simp add: fragment_rows_generateTableXml table_specs_def total_specs_def item_specs_def
        cell_expected_def)
  have b: "map (map cell_shown) (butlast (tl (fragment_rows (generateTableXml numToString its tot)))) =
       map (\<lambda>(index, item).
              [String_nat (index + 1), name item, model item, unit item,
               numToString (quantity item), numToString (price item),
               numToString (amount item), remark item])
         (zip [0 ..< length its] its)"
    by (simp add: fragment_rows_generateTableXml table_specs_def total_specs_def item_specs_def
        cell_expected_def r comp_def split_def)
  have c: "rejected (generateFilledDocument env numToString content data tableData fieldDefs) =
       rejected (generateFilledDocument env numToString content data otherTableData fieldDefs)"
    by (simp only: generateFilledDocument_rejected)
  have d: "generateFilledDocument env numToString (Some c) data (Some td) fieldDefs =
            (Inr (case elementsByTagName (ascii ''w:tbl'')
                         (parseFromString env
                            (wrappedTableXml
                               (generateTableXml numToString (items td) (total td)))) of
                    [] \<Rightarrow> outZip
                  | t # ts \<Rightarrow>
                      (case node_at
                              (parseFromString env
                                 (wrappedTableXml
                                    (generateTableXml numToString (items td) (total td)))) t of
                         None \<Rightarrow> outZip
                       | Some tableNode \<Rightarrow>
                           outZip(DOCUMENT_PART \<mapsto>
                             serializeToString env
                               (replace_at (parseFromString env xml) q tableNode)))),
             [])"
    if h: "byteLength c \<noteq> 0" "archive c = Inr inZip"
      "render env inZip
            (template_data_for data (table_field fieldDefs)
               (tablePlaceholder (random_number env))) = Inr outZip"
      "outZip DOCUMENT_PART = Some xml" "xml \<noteq> []"
      "table_field fieldDefs = Some tf"
      "find_target (parseFromString env xml) (tablePlaceholder (random_number env))
            (elementsByTagName (ascii ''w:t'') (parseFromString env xml)) = Some q"
    by (simp only: generateFilledDocument_rendered [OF h(1,2,3)] h(6)
        splice_table_found [of outZip xml env "tablePlaceholder (random_number env)" q, OF h(4,5,7)]
        fst_conv snd_conv)
  have e: "items (ProductTable_onSave add_num zero_num saved) = saved"
    "total (ProductTable_onSave add_num zero_num []) = zero_num"
    "total (ProductTable_onSave add_num zero_num (saved @ [it])) =
       add_num (total (ProductTable_onSave add_num zero_num saved)) (amount it)"
    by (simp_all add: ProductTable_onSave_def)
  from a b c d e show ?thesis
    by blast
qed

text \<open>
  The template of the example holds the tag of the table field, and the table data has
  one item of amount 1 and the total 5: the call takes the path that splices.
\<close>

theorem total_is_taken_as_given_witness:
  "byteLength (example_file example_table_template) \<noteq> 0
   \<and> archive (example_file example_table_template) =
       Inr (example_package DOCUMENT_PART example_table_template)
   \<and> render example_env (example_package DOCUMENT_PART example_table_template)
       (template_data_for Map.empty (table_field (Some [example_table_field]))
          (tablePlaceholder (random_number example_env)))
       = Inr (example_package DOCUMENT_PART
                (example_open @ ascii ''___INSERT_TABLE_HERE_42___'' @ example_close))
   \<and> (example_package DOCUMENT_PART
             (example_open @ ascii ''___INSERT_TABLE_HERE_42___'' @ example_close))
         DOCUMENT_PART =
       Some (example_open @ ascii ''___INSERT_TABLE_HERE_42___'' @ example_close)
   \<and> example_open @ ascii ''___INSERT_TABLE_HERE_42___'' @ example_close \<noteq> []
   \<and> table_field (Some [example_table_field]) = Some example_table_field
   \<and> find_target
       (parseFromString example_env
          (example_open @ ascii ''___INSERT_TABLE_HERE_42___'' @ example_close))
       (tablePlaceholder (random_number example_env))
       (elementsByTagName (ascii ''w:t'')
          (parseFromString example_env
             (example_open @ ascii ''___INSERT_TABLE_HERE_42___'' @ example_close)))
       = Some [0, 0]
   \<and> sum_list (map amount [example_item]) \<noteq> 5
   \<and> generateFilledDocument example_env String_int (Some (example_file example_table_template))
       Map.empty (Some \<lparr>items = [example_item], total = 5\<rparr>) (Some [example_table_field]) =
       (Inr (case elementsByTagName (ascii ''w:tbl'')
                    (parseFromString example_env
                       (wrappedTableXml
                          (generateTableXml String_int [example_item] 5))) of
               [] \<Rightarrow> (example_package DOCUMENT_PART
                                   (example_open @ ascii ''___INSERT_TABLE_HERE_42___'' @ example_close))
             | t # ts \<Rightarrow>
                 (case node_at
                         (parseFromString example_env
                            (wrappedTableXml
                               (generateTableXml String_int [example_item] 5))) t of
                    None \<Rightarrow> (example_package DOCUMENT_PART
                                          (example_open @ ascii ''___INSERT_TABLE_HERE_42___'' @ example_close))
                  | Some tableNode \<Rightarrow>
                      (example_package DOCUMENT_PART
                         (example_open @ ascii ''___INSERT_TABLE_HERE_42___'' @ example_close))
                      (DOCUMENT_PART \<mapsto>
                        serializeToString example_env
                          (replace_at
                             (parseFromString example_env
                                (example_open @ ascii ''___INSERT_TABLE_HERE_42___''
                                   @ example_close))
                             [0, 0] tableNode)))),
        [])"
proof -
  have h1: "byteLength (example_file example_table_template) \<noteq> 0"
    by (simp add: example_file_def)
  have h2: "archive (example_file example_table_template) =
       Inr (example_package DOCUMENT_PART example_table_template)"
    by (simp add: example_file_def)
  have v: "render example_env = Docxtemplater_render DOCUMENT_PART"
    "parseFromString example_env = xml_parse"
    by (simp_all add: example_env_def)
  have h3: "render example_env (example_package DOCUMENT_PART example_table_template)
       (template_data_for Map.empty (table_field (Some [example_table_field]))
          (tablePlaceholder (random_number example_env)))
       = Inr (example_package DOCUMENT_PART
                (example_open @ ascii ''___INSERT_TABLE_HERE_42___'' @ example_close))"
    using example_table_rendered
    by (simp add: v example_sentinel template_data_for_def table_field_def
        example_table_field_def)
  have h4: "(example_package DOCUMENT_PART
               (example_open @ ascii ''___INSERT_TABLE_HERE_42___'' @ example_close))
         DOCUMENT_PART =
       Some (example_open @ ascii ''___INSERT_TABLE_HERE_42___'' @ example_close)"
    by simp
  have h5: "example_open @ ascii ''___INSERT_TABLE_HERE_42___'' @ example_close \<noteq> []"
    by (simp add: ascii_def)
  note h6 = example_table_field_found
  have h7: "find_target
       (parseFromString example_env
          (example_open @ ascii ''___INSERT_TABLE_HERE_42___'' @ example_close))
       (tablePlaceholder (random_number example_env))
       (elementsByTagName (ascii ''w:t'')
          (parseFromString example_env
             (example_open @ ascii ''___INSERT_TABLE_HERE_42___'' @ example_close)))
       = Some [0, 0]"
    by (simp only: v example_sentinel example_table_target)
  have h8: "sum_list (map amount [example_item]) \<noteq> 5"
    by (simp add: example_item_def)
  note e = total_is_taken_as_given [THEN conjunct2, THEN conjunct2, THEN conjunct2,
      THEN conjunct1, rule_format, OF conjI [OF h1 conjI [OF h2 conjI [OF h3 conjI [OF h4
        conjI [OF h5 conjI [OF h6 h7]]]]]],
      of String_int "\<lparr>items = [example_item], total = 5\<rparr>",
      unfolded TableData.select_convs]
  show ?thesis
    by (intro conjI) (rule h1 h2 h3 h4 h5 h6 h7 h8 e)+
qed

text \<open>
  Claim C3 as stated fails: one item of amount 1 and the total 5 do not satisfy the
  equation; the builder yields the fragment that shows both, and \<open>generateFilledDocument\<close>
  does not reject the call that passes them.
\<close>

theorem unchecked_total_counterexample:
  "sum_list (map amount [example_item]) \<noteq> 5
   \<and> map (map cell_shown) (fragment_rows (generateTableXml String_int [example_item] 5)) =
       [[[0x5E8F, 0x53F7], [0x5546, 0x54C1, 0x540D, 0x79F0], [0x578B, 0x53F7], [0x5355, 0x4F4D],
         [0x6570, 0x91CF], [0x5355, 0x4EF7], [0x91D1, 0x989D], [0x5907, 0x6CE8]],
        [ascii ''1'', ascii ''pen'', ascii ''P1'', ascii ''box'', ascii ''1'', ascii ''1'',
         ascii ''1'', []],
        [[0x5408, 0x8BA1, 0xFF1A], ascii ''5'', []]]
   \<and> \<not> rejected
         (generateFilledDocument example_env String_int
            (Some (example_file example_table_template)) Map.empty
            (Some \<lparr>items = [example_item], total = 5\<rparr>) (Some [example_table_field]))"
proof -
  have s: "String_int 1 = ascii ''1''" "String_int 5 = ascii ''5''"
    "String_nat (Suc 0) = ascii ''1''"
    by (simp_all add: String_int_def String_nat.simps digit_chars_def ascii_def)
  have a: "sum_list (map amount [example_item]) \<noteq> 5"
    by (simp add: example_item_def)
  have b: "map (map cell_shown) (fragment_rows (generateTableXml String_int [example_item] 5)) =
       [[[0x5E8F, 0x53F7], [0x5546, 0x54C1, 0x540D, 0x79F0], [0x578B, 0x53F7], [0x5355, 0x4F4D],
         [0x6570, 0x91CF], [0x5355, 0x4EF7], [0x91D1, 0x989D], [0x5907, 0x6CE8]],
        [ascii ''1'', ascii ''pen'', ascii ''P1'', ascii ''box'', ascii ''1'', ascii ''1'',
         ascii ''1'', []],
        [[0x5408, 0x8BA1, 0xFF1A], ascii ''5'', []]]"
    by (simp add: fragment_rows_generateTableXml table_specs_def total_specs_def item_specs_def
        header_specs_def cell_expected_def example_item_def remark_or_empty_def comp_def s
        headers_def TOTAL_LABEL_def)
  have c: "\<not> rejected
         (generateFilledDocument example_env String_int
            (Some (example_file example_table_template)) Map.empty
            (Some \<lparr>items = [example_item], total = 5\<rparr>) (Some [example_table_field]))"
    using example_table_rendered
    by (simp add: generateFilledDocument_rejected example_file_def example_env_def
        example_sentinel [unfolded example_env_def, simplified] table_field_def
        template_data_for_def example_table_field_def)
  from a b c show ?thesis
    by blast
qed

end
